theory Spec2Isabelle
  imports Main
begin

section \<open>The translation page script (translator.js)\<close>

text \<open>
  The script wires a page: a file is chosen (\<open>handleFiles\<close>), the translate button posts it and
  reads the streamed answer chunk by chunk, each chunk is cut into lines, each line is parsed as
  JSON and applied to the page, and a second button clears the server's cache.

  The model is a shallow embedding. The page is a record of the element properties that the
  script writes; the handlers are functions from page to page. What the network, the JSON parser
  and the user do is an argument of the handler concerned.

  Conventions.
  \<^item> A JavaScript string is a \<open>string\<close>: a list of code units, here the code units below 256
    (U+0000 to U+00FF), which covers every literal of the script.
  \<^item> \<open>undefined\<close> is \<open>None\<close> of \<open>json option\<close>.
  \<^item> A statement that can throw gives an error or a page; what was written before the throw
    stays written.
  \<^item> The page is taken to hold every element that the script looks up (lines 3 to 19, and
    \<open>.action-buttons\<close> of line 291), so that none of the lookups yields \<open>null\<close>.
  \<^item> A property is modelled by the value last assigned to it (\<open>textContent\<close>, \<open>style.width\<close>,
    \<open>disabled\<close>); what the browser renders from it is outside the script.
\<close>

subsection \<open>Values produced by JSON.parse\<close>

text \<open>
  A number is kept as the text that JavaScript's number-to-string conversion gives for it: the
  script never calculates with a number, it only tests it for truthiness and converts it to text.
  \<open>JSON.parse\<close> yields no NaN, so that the falsy numbers, \<open>0\<close> and \<open>-0\<close>, are the ones whose
  text is \<open>0\<close>. An object is the list of its own properties, looked up with \<open>map_of\<close>.
\<close>

datatype json =
    JNull
  | JBool bool
  | JNum string
  | JStr string
  | JArr "json list"
  | JObj "(string \<times> json) list"

text \<open>Truthiness (\<open>if (v)\<close>).\<close>

fun truthy :: "json \<Rightarrow> bool" where
  "truthy JNull = False"
| "truthy (JBool b) = b"
| "truthy (JNum t) = (t \<noteq> ''0'')"
| "truthy (JStr s) = (s \<noteq> [])"
| "truthy (JArr xs) = True"
| "truthy (JObj kvs) = True"

definition truthy_opt :: "json option \<Rightarrow> bool" where
  "truthy_opt x = (case x of None \<Rightarrow> False | Some v \<Rightarrow> truthy v)"

text \<open>\<open>Array.prototype.join\<close> with the default separator.\<close>

fun join_comma :: "string list \<Rightarrow> string" where
  "join_comma [] = []"
| "join_comma [x] = x"
| "join_comma (x # y # r) = x @ '','' @ join_comma (y # r)"

text \<open>
  The conversion to a string of \<open>v + '%'\<close>, of a template literal and of an assignment to
  \<open>textContent\<close>; \<open>None\<close> stands for the TypeError that the conversion throws. An object
  made by \<open>JSON.parse\<close> converts to \<open>[object Object]\<close> unless it has a property of its own
  named \<open>toString\<close>: that property is then found in place of the built-in method, it is not a
  function, the built-in \<open>valueOf\<close> gives the object back, and no primitive value is
  obtained. An array is joined, with \<open>null\<close> elements as empty strings, and throws where one of
  its elements does.
\<close>

fun js_String :: "json \<Rightarrow> string option" where
  "js_String JNull = Some ''null''"
| "js_String (JBool b) = Some (if b then ''true'' else ''false'')"
| "js_String (JNum t) = Some t"
| "js_String (JStr s) = Some s"
| "js_String (JArr xs) =
     map_option join_comma (those (map (\<lambda>x. if x = JNull then Some [] else js_String x) xs))"
| "js_String (JObj kvs) =
     (if map_of kvs ''toString'' = None then Some ''[object Object]'' else None)"

text \<open>Assigning a value to \<open>textContent\<close>: \<open>null\<close> becomes the empty string.\<close>

definition textContent_of :: "json \<Rightarrow> string option" where
  "textContent_of v = (if v = JNull then Some [] else js_String v)"

text \<open>
  Reading the property \<open>k\<close> of a value other than \<open>null\<close>, for the property names that the
  script reads (\<open>progress\<close>, \<open>status\<close>, \<open>apiCalls\<close>, \<open>cached\<close>, \<open>message\<close>, \<open>summary\<close>,
  \<open>downloadUrl\<close>): only an object can have them. Reading a property of \<open>null\<close> throws; the
  callers test for \<open>null\<close> first.
\<close>

fun get_property :: "json \<Rightarrow> string \<Rightarrow> json option" where
  "get_property (JObj kvs) k = map_of kvs k"
| "get_property v k = None"

text \<open>
  What a field becomes under \<open>if (x !== undefined)\<close> and under \<open>if (x)\<close>: the value made
  from \<open>x\<close> and the old one, or the old one. The theorems state the fields of a page with
  them.
\<close>

definition when_defined :: "json option \<Rightarrow> (json \<Rightarrow> 'a \<Rightarrow> 'a) \<Rightarrow> 'a \<Rightarrow> 'a" where
  "when_defined x f s = (case x of None \<Rightarrow> s | Some v \<Rightarrow> f v s)"

definition when_truthy :: "json option \<Rightarrow> (json \<Rightarrow> 'a \<Rightarrow> 'a) \<Rightarrow> 'a \<Rightarrow> 'a" where
  "when_truthy x f s = (case x of None \<Rightarrow> s | Some v \<Rightarrow> if truthy v then f v s else s)"

subsection \<open>String operations\<close>

definition nl :: char where
  "nl = CHR 0x0A"

text \<open>\<open>s.split(sep)\<close> for a separator of one code unit: \<open>cur\<close> is the fragment being read.\<close>

fun split_from :: "char \<Rightarrow> string \<Rightarrow> string \<Rightarrow> string list" where
  "split_from sep cur [] = [cur]"
| "split_from sep cur (c # cs) =
     (if c = sep then cur # split_from sep [] cs else split_from sep (cur @ [c]) cs)"

definition split_on :: "char \<Rightarrow> string \<Rightarrow> string list" where
  "split_on sep s = split_from sep [] s"

text \<open>White space of \<open>trim\<close> among the code units below 256: TAB, LF, VT, FF, CR, SP, NBSP.\<close>

definition isWhiteSpace :: "char \<Rightarrow> bool" where
  "isWhiteSpace c = (of_char c \<in> {9, 10, 11, 12, 13, 32, 160 :: nat})"

definition trim :: "string \<Rightarrow> string" where
  "trim s = rev (dropWhile isWhiteSpace (rev (dropWhile isWhiteSpace s)))"

text \<open>\<open>toLowerCase\<close> on the code units below 256: A to Z, and U+00C0 to U+00DE but U+00D7.\<close>

definition toLowerCase_char :: "char \<Rightarrow> char" where
  "toLowerCase_char c =
     (let n = of_char c :: nat
      in if (65 \<le> n \<and> n \<le> 90) \<or> (192 \<le> n \<and> n \<le> 222 \<and> n \<noteq> 215) then char_of (n + 32) else c)"

definition toLowerCase :: "string \<Rightarrow> string" where
  "toLowerCase s = map toLowerCase_char s"

definition endsWith :: "string \<Rightarrow> string \<Rightarrow> bool" where
  "endsWith s suf = (length suf \<le> length s \<and> drop (length s - length suf) s = suf)"

text \<open>A number in decimal, as a template literal prints \<open>response.status\<close>.\<close>

fun dec :: "nat \<Rightarrow> string" where
  "dec n = (if n < 10 then [char_of (48 + n)] else dec (n div 10) @ [char_of (48 + n mod 10)])"

declare dec.simps [simp del]

subsection \<open>The page\<close>

datatype console_entry =
    Console_log string json
  | Console_error string string

text \<open>
  One field for each property that the script writes. \<open>logContainer\<close> is the list of log
  entries, oldest first; an entry is the message, without the time of day that \<open>addLog\<close> puts
  before it. \<open>fileInput_files\<close> holds the names of the files of the file input. \<open>fetched\<close> lists
  the requests sent. The last three fields are the variables of one run of the translate handler
  (lines 168 to 170).
\<close>

record page =
  fileInput_files :: "string list"
  fileName_textContent :: string
  translateBtn_disabled :: bool
  progressSection_display :: string
  progressBar_width :: string
  status_textContent :: string
  apiCalls_textContent :: string
  cached_textContent :: string
  logContainer :: "string list"
  currentSummary :: json
  summaryDisplay_textContent :: string
  summarySection_display :: string
  editSummaryBtn_disabled :: bool
  exportSummaryBtn_disabled :: bool
  downloadBtn_exists :: bool
  downloadBtn_onclick :: "json option"
  console :: "console_entry list"
  fetched :: "string list"
  translationComplete :: bool
  summaryGenerated :: bool
  finalDownloadUrl :: "json option"

text \<open>Lines 272 to 279.\<close>

definition addLog :: "string \<Rightarrow> page \<Rightarrow> page" where
  "addLog message s = s\<lparr>logContainer := logContainer s @ [message]\<rparr>"

subsection \<open>Choosing a file (lines 112 to 125)\<close>

text \<open>The argument is the list of the names of the files handed over.\<close>

definition accepted_name :: "string \<Rightarrow> bool" where
  "accepted_name name =
     (endsWith (toLowerCase name) ''.docx'' \<or> endsWith (toLowerCase name) ''.pdf'')"

definition handleFiles :: "string list \<Rightarrow> page \<Rightarrow> page" where
  "handleFiles files s =
     (case files of
        [] \<Rightarrow> s
      | file # _ \<Rightarrow>
          if accepted_name file
          then addLog (''File selected: '' @ file)
                 (s\<lparr>fileName_textContent := file, translateBtn_disabled := False\<rparr>)
          else addLog ''Error: Invalid file type. Please select a DOCX or PDF file.''
                 (s\<lparr>fileName_textContent := ''Please select a DOCX or PDF file'',
                    translateBtn_disabled := True\<rparr>))"

subsection \<open>Statements that may throw\<close>

datatype js_error = SyntaxError | TypeError | ReferenceError

text \<open>
  A statement gives the page it leaves, or the error it throws; a statement of the script that
  throws has written nothing before. Statements run in order up to the first that throws: the
  result is the error thrown, if any, and the page as the statements before it left it.
\<close>

fun run_statements :: "(page \<Rightarrow> js_error + page) list \<Rightarrow> page \<Rightarrow> js_error option \<times> page" where
  "run_statements [] s = (None, s)"
| "run_statements (st # rest) s =
     (case st s of
        Inl e \<Rightarrow> (Some e, s)
      | Inr s1 \<Rightarrow> run_statements rest s1)"

text \<open>\<open>if (x !== undefined) ...\<close> and \<open>if (x) ...\<close>.\<close>

definition if_defined ::
  "json option \<Rightarrow> (json \<Rightarrow> page \<Rightarrow> js_error + page) \<Rightarrow> page \<Rightarrow> js_error + page" where
  "if_defined x st p = (case x of None \<Rightarrow> Inr p | Some v \<Rightarrow> st v p)"

definition if_truthy ::
  "json option \<Rightarrow> (json \<Rightarrow> page \<Rightarrow> js_error + page) \<Rightarrow> page \<Rightarrow> js_error + page" where
  "if_truthy x st p = (case x of None \<Rightarrow> Inr p | Some v \<Rightarrow> if truthy v then st v p else Inr p)"

text \<open>Converting a value to text and writing the text: the conversion comes first.\<close>

definition write_text ::
  "(json \<Rightarrow> string option) \<Rightarrow> (string \<Rightarrow> page \<Rightarrow> page) \<Rightarrow> json \<Rightarrow> page \<Rightarrow> js_error + page" where
  "write_text conv wr v p = (case conv v of None \<Rightarrow> Inl TypeError | Some t \<Rightarrow> Inr (wr t p))"

subsection \<open>Applying one record (lines 251 to 270)\<close>

text \<open>The six statements of \<open>handleProgressUpdate\<close>, for \<open>data\<close> other than \<open>null\<close>.\<close>

definition set_progress :: "json \<Rightarrow> page \<Rightarrow> js_error + page" where
  "set_progress data =
     if_defined (get_property data ''progress'')
       (write_text js_String (\<lambda>t p. p\<lparr>progressBar_width := t @ ''%''\<rparr>))"

definition set_status :: "json \<Rightarrow> page \<Rightarrow> js_error + page" where
  "set_status data =
     if_truthy (get_property data ''status'')
       (write_text textContent_of (\<lambda>t p. p\<lparr>status_textContent := t\<rparr>))"

definition set_apiCalls :: "json \<Rightarrow> page \<Rightarrow> js_error + page" where
  "set_apiCalls data =
     if_defined (get_property data ''apiCalls'')
       (write_text textContent_of (\<lambda>t p. p\<lparr>apiCalls_textContent := t\<rparr>))"

definition set_cached :: "json \<Rightarrow> page \<Rightarrow> js_error + page" where
  "set_cached data =
     if_defined (get_property data ''cached'')
       (write_text textContent_of (\<lambda>t p. p\<lparr>cached_textContent := t\<rparr>))"

text \<open>\<open>addLog(data.message)\<close>: the template literal of line 276 converts the message.\<close>

definition log_message :: "json \<Rightarrow> page \<Rightarrow> js_error + page" where
  "log_message data =
     if_truthy (get_property data ''message'') (write_text js_String addLog)"

definition print_downloadUrl :: "json \<Rightarrow> page \<Rightarrow> js_error + page" where
  "print_downloadUrl data =
     if_truthy (get_property data ''downloadUrl'')
       (\<lambda>v p. Inr (p\<lparr>console := console p @ [Console_log ''Download URL received:'' v]\<rparr>))"

text \<open>
  \<open>handleProgressUpdate(data)\<close>. With \<open>data\<close> being \<open>null\<close> the first property read, of line
  252, throws a TypeError before anything is written.
\<close>

definition handleProgressUpdate :: "json \<Rightarrow> page \<Rightarrow> js_error option \<times> page" where
  "handleProgressUpdate data s =
     (if data = JNull then (Some TypeError, s)
      else run_statements
             [set_progress data, set_status data, set_apiCalls data, set_cached data,
              log_message data, print_downloadUrl data] s)"

subsection \<open>One line of the stream (lines 183 to 206)\<close>

text \<open>
  Lines 188 to 192. The script declares no \<open>logger\<close>, and a browser has no global of that name:
  evaluating \<open>logger.info\<close> on line 191 throws a ReferenceError, after the two assignments
  before it.
\<close>

definition downloadUrl_block :: "json \<Rightarrow> page \<Rightarrow> js_error option \<times> page" where
  "downloadUrl_block data s =
     (if truthy_opt (get_property data ''downloadUrl'')
      then (Some ReferenceError,
            s\<lparr>finalDownloadUrl := get_property data ''downloadUrl'', translationComplete := True\<rparr>)
      else (None, s))"

text \<open>
  Lines 194 to 202. The assignment of line 197 converts the summary and may throw, after the
  two assignments before it.
\<close>

definition summary_block :: "json \<Rightarrow> page \<Rightarrow> js_error option \<times> page" where
  "summary_block data s =
     (case get_property data ''summary'' of
        None \<Rightarrow> (None, s)
      | Some v \<Rightarrow>
          if truthy v
          then run_statements
                 [\<lambda>p. Inr (p\<lparr>summaryGenerated := True, currentSummary := v\<rparr>),
                  write_text textContent_of (\<lambda>t p. p\<lparr>summaryDisplay_textContent := t\<rparr>) v,
                  \<lambda>p. Inr (addLog ''Document summary generated and displayed''
                             (p\<lparr>summarySection_display := ''block'',
                                editSummaryBtn_disabled := False,
                                exportSummaryBtn_disabled := False\<rparr>))] s
          else (None, s))"

text \<open>
  The body of the \<open>try\<close> of lines 185 to 202. \<open>parse\<close> stands for \<open>JSON.parse\<close>: it yields
  \<open>None\<close> where \<open>JSON.parse\<close> throws a SyntaxError.
\<close>

definition update_try :: "(string \<Rightarrow> json option) \<Rightarrow> string \<Rightarrow> page \<Rightarrow> js_error option \<times> page" where
  "update_try parse update s =
     (case parse update of
        None \<Rightarrow> (Some SyntaxError, s)
      | Some data \<Rightarrow>
          (case handleProgressUpdate data s of
             (Some e, s1) \<Rightarrow> (Some e, s1)
           | (None, s1) \<Rightarrow>
               (case downloadUrl_block data s1 of
                  (Some e, s2) \<Rightarrow> (Some e, s2)
                | (None, s2) \<Rightarrow> summary_block data s2)))"

text \<open>The callback of \<open>forEach\<close>, with the \<open>catch\<close> of lines 203 to 205.\<close>

definition process_update :: "(string \<Rightarrow> json option) \<Rightarrow> string \<Rightarrow> page \<Rightarrow> page" where
  "process_update parse update s =
     (case update_try parse update s of
        (None, s1) \<Rightarrow> s1
      | (Some e, s1) \<Rightarrow> addLog (''Non-JSON update: '' @ update) s1)"

subsection \<open>One chunk (lines 179 to 206)\<close>

text \<open>
  Line 181, applied to the text that \<open>decoder.decode(value)\<close> gives for the chunk: the chunk is
  cut at the line feeds on its own, and the fragments that are empty or blank are dropped.
\<close>

definition chunk_updates :: "string \<Rightarrow> string list" where
  "chunk_updates text = filter (\<lambda>line. trim line \<noteq> []) (split_on nl text)"

definition process_chunk :: "(string \<Rightarrow> json option) \<Rightarrow> string \<Rightarrow> page \<Rightarrow> page" where
  "process_chunk parse text s = fold (process_update parse) (chunk_updates text) s"

subsection \<open>Reading the stream (lines 172 to 207)\<close>

text \<open>
  What the reads of one run deliver: the texts of the chunks in order, and then either the end
  of the stream or a read that rejects, with the message of the error. A response without a body
  makes line 165 throw and is a rejecting read with no chunk before it. A stream that neither
  ends nor fails keeps the handler waiting for ever: such a run has no exit and no result.
\<close>

datatype stream_end = Done | Read_rejects string

fun read_loop ::
  "(string \<Rightarrow> json option) \<Rightarrow> string list \<Rightarrow> stream_end \<Rightarrow> page \<Rightarrow> string option \<times> page" where
  "read_loop parse [] Done s = (None, addLog ''Stream complete'' s)"
| "read_loop parse [] (Read_rejects m) s = (Some m, s)"
| "read_loop parse (text # rest) ending s = read_loop parse rest ending (process_chunk parse text s)"

subsection \<open>After the stream (lines 209 to 220, 282 to 301)\<close>

definition addDownloadButton :: "json \<Rightarrow> page \<Rightarrow> page" where
  "addDownloadButton downloadUrl s =
     addLog ''Download ready! Click the download button to save the translated document.''
       (s\<lparr>downloadBtn_exists := True, downloadBtn_onclick := Some downloadUrl\<rparr>)"

datatype exit_path = Completed | Incomplete | Failed

definition finish_incomplete :: "page \<Rightarrow> exit_path \<times> page" where
  "finish_incomplete s =
     (Incomplete,
      addLog ''Translation process finished with errors or was incomplete.''
        (if status_textContent s \<noteq> ''Error''
         then s\<lparr>status_textContent := ''Translation incomplete or failed''\<rparr>
         else s))"

text \<open>The result names the branch of line 209 that was taken.\<close>

definition finish :: "page \<Rightarrow> exit_path \<times> page" where
  "finish s =
     (case finalDownloadUrl s of
        None \<Rightarrow> finish_incomplete s
      | Some url \<Rightarrow>
          if translationComplete s \<and> truthy url
          then (Completed,
                addLog ''Translation process finished successfully. Download ready.''
                  (addDownloadButton url
                     (s\<lparr>status_textContent := ''Translation completed'',
                        progressBar_width := ''100%''\<rparr>)))
          else finish_incomplete s)"

subsection \<open>The translate button (lines 128 to 228)\<close>

text \<open>
  What \<open>fetch('/translate')\<close> does: it rejects with the message of an error, or it gives a
  response with \<open>ok\<close>, \<open>status\<close> and the reads of its body.
\<close>

datatype fetch_outcome =
    Fetch_rejects string
  | Fetch_response bool nat "string list" stream_end

text \<open>
  Lines 163 to 220, for a response that is \<open>ok\<close>: the result is the exit path, the message of
  the error thrown if there is one, and the page.
\<close>

definition read_response ::
  "(string \<Rightarrow> json option) \<Rightarrow> string list \<Rightarrow> stream_end \<Rightarrow> page \<Rightarrow> exit_path \<times> string option \<times> page" where
  "read_response parse chunks ending s =
     (let s1 = addLog ''Connected to server stream. Waiting for updates...'' s;
          s2 = s1\<lparr>translationComplete := False, summaryGenerated := False,
                 finalDownloadUrl := None\<rparr>;
          r = read_loop parse chunks ending s2
      in case fst r of
           Some m \<Rightarrow> (Failed, Some m, snd r)
         | None \<Rightarrow> (fst (finish (snd r)), None, snd (finish (snd r))))"

text \<open>The \<open>try\<close> block, lines 153 to 220.\<close>

definition try_block ::
  "(string \<Rightarrow> json option) \<Rightarrow> fetch_outcome \<Rightarrow> page \<Rightarrow> exit_path \<times> string option \<times> page" where
  "try_block parse net s =
     (let s1 = addLog ''Sending file to server...'' s;
          s2 = s1\<lparr>fetched := fetched s1 @ [''/translate'']\<rparr>
      in case net of
           Fetch_rejects m \<Rightarrow> (Failed, Some m, s2)
         | Fetch_response ok status chunks ending \<Rightarrow>
             if \<not> ok then (Failed, Some (''Translation failed with status: '' @ dec status), s2)
             else read_response parse chunks ending s2)"

text \<open>
  Lines 132 to 227, for a file that is there. The form data of lines 132 to 139 go into the
  request only.
\<close>

definition translate_run ::
  "(string \<Rightarrow> json option) \<Rightarrow> fetch_outcome \<Rightarrow> page \<Rightarrow> exit_path \<times> page" where
  "translate_run parse net s =
     (let s1 = s\<lparr>progressSection_display := ''block'',
                translateBtn_disabled := True,
                status_textContent := ''Translating...'',
                progressBar_width := ''0%'',
                logContainer := []\<rparr>;
          s2 = addLog ''Starting translation process...'' s1
      in case try_block parse net s2 of
           (path, None, s3) \<Rightarrow> (path, s3\<lparr>translateBtn_disabled := False\<rparr>)
         | (path, Some m, s3) \<Rightarrow>
             let s4 = addLog (''Error during translation: '' @ m) (s3\<lparr>status_textContent := ''Error''\<rparr>);
                 s5 = s4\<lparr>console := console s4 @ [Console_error ''Translation error:'' m]\<rparr>
             in (path, s5\<lparr>translateBtn_disabled := False\<rparr>))"

text \<open>The handler: without a file it returns on line 130.\<close>

definition translate_click :: "(string \<Rightarrow> json option) \<Rightarrow> fetch_outcome \<Rightarrow> page \<Rightarrow> page" where
  "translate_click parse net s =
     (case fileInput_files s of
        [] \<Rightarrow> s
      | file # _ \<Rightarrow> snd (translate_run parse net s))"

subsection \<open>The clear-cache button (lines 231 to 248)\<close>

text \<open>
  What \<open>fetch('/clear-cache')\<close> does: it rejects, or it gives a response with \<open>ok\<close> and the
  outcome of \<open>response.json()\<close>, which is the message of an error or the value parsed.
\<close>

datatype cache_outcome =
    Cache_rejects string
  | Cache_response bool "string + json"

text \<open>
  The messages of the TypeErrors of line 244, in V8's words: for \<open>data.message\<close> with \<open>data\<close>
  being \<open>null\<close>, and for a message that has no text.
\<close>

definition null_message :: string where
  "null_message = ''Cannot read properties of null (reading 'message')''"

definition convert_message :: string where
  "convert_message = ''Cannot convert object to primitive value''"

definition clearCache_click :: "cache_outcome \<Rightarrow> page \<Rightarrow> page" where
  "clearCache_click net s =
     (let s1 = s\<lparr>fetched := fetched s @ [''/clear-cache'']\<rparr>
      in case net of
           Cache_rejects m \<Rightarrow> addLog (''Error clearing cache: '' @ m) s1
         | Cache_response ok body \<Rightarrow>
             if \<not> ok then addLog (''Error clearing cache: '' @ ''Failed to clear cache'') s1
             else
               (case body of
                  Inl m \<Rightarrow> addLog (''Error clearing cache: '' @ m) s1
                | Inr data \<Rightarrow>
                    let s2 = s1\<lparr>apiCalls_textContent := ''0'', cached_textContent := ''0''\<rparr>
                    in if data = JNull then addLog (''Error clearing cache: '' @ null_message) s2
                       else
                         (case get_property data ''message'' of
                            None \<Rightarrow> addLog (''Cache cleared: '' @ ''undefined'') s2
                          | Some v \<Rightarrow>
                              (case js_String v of
                                 None \<Rightarrow> addLog (''Error clearing cache: '' @ convert_message) s2
                               | Some t \<Rightarrow> addLog (''Cache cleared: '' @ t) s2))))"

subsection \<open>Notions of the specification\<close>

text \<open>
  The suffix of a file name in the words of the specification: what follows the last dot, if
  there is a dot.
\<close>

definition name_suffix :: "string \<Rightarrow> string option" where
  "name_suffix name =
     (if CHR ''.'' \<in> set name
      then Some (rev (takeWhile (\<lambda>c. c \<noteq> CHR ''.'') (rev name)))
      else None)"

text \<open>The lines that a run hands to the callback of \<open>forEach\<close>, in order.\<close>

definition stream_updates :: "string list \<Rightarrow> string list" where
  "stream_updates chunks = concat (map chunk_updates chunks)"

text \<open>
  The values of a record that \<open>handleProgressUpdate\<close> converts to text all have a text: a
  \<open>progress\<close>, \<open>apiCalls\<close> or \<open>cached\<close> that is present, a \<open>status\<close> or \<open>message\<close> that is
  truthy. \<open>summary_has_text\<close> says the same of a truthy \<open>summary\<close>.
\<close>

definition has_text :: "json option \<Rightarrow> bool" where
  "has_text x = (case x of None \<Rightarrow> True | Some v \<Rightarrow> js_String v \<noteq> None)"

definition truthy_has_text :: "json option \<Rightarrow> bool" where
  "truthy_has_text x = (case x of None \<Rightarrow> True | Some v \<Rightarrow> \<not> truthy v \<or> js_String v \<noteq> None)"

definition fields_have_text :: "json \<Rightarrow> bool" where
  "fields_have_text data =
     (has_text (get_property data ''progress'') \<and>
      truthy_has_text (get_property data ''status'') \<and>
      has_text (get_property data ''apiCalls'') \<and>
      has_text (get_property data ''cached'') \<and>
      truthy_has_text (get_property data ''message''))"

definition summary_has_text :: "json \<Rightarrow> bool" where
  "summary_has_text data = truthy_has_text (get_property data ''summary'')"

text \<open>The text of a value that has one.\<close>

definition text_of :: "json \<Rightarrow> string" where
  "text_of v = (case js_String v of None \<Rightarrow> [] | Some t \<Rightarrow> t)"

definition content_of :: "json \<Rightarrow> string" where
  "content_of v = (case textContent_of v of None \<Rightarrow> [] | Some t \<Rightarrow> t)"

text \<open>
  The download URL that a line gets recorded, if any: the line parses, the fields before the
  download URL are applied without an error, and the \<open>downloadUrl\<close> is truthy.
\<close>

definition recorded_url_of :: "(string \<Rightarrow> json option) \<Rightarrow> string \<Rightarrow> json option" where
  "recorded_url_of parse line =
     (case parse line of
        None \<Rightarrow> None
      | Some data \<Rightarrow>
          if fields_have_text data \<and> truthy_opt (get_property data ''downloadUrl'')
          then get_property data ''downloadUrl''
          else None)"

definition recorded_urls :: "(string \<Rightarrow> json option) \<Rightarrow> string list \<Rightarrow> json list" where
  "recorded_urls parse lines = List.map_filter (recorded_url_of parse) lines"

text \<open>A cache-clear request that fails: no response, a response that is not \<open>ok\<close>, or a body
  that \<open>response.json()\<close> cannot deliver.\<close>

definition request_failed :: "cache_outcome \<Rightarrow> bool" where
  "request_failed net =
     (case net of
        Cache_rejects m \<Rightarrow> True
      | Cache_response ok body \<Rightarrow> \<not> ok \<or> isl body)"

subsection \<open>Sample inputs\<close>

text \<open>A page with the file \<open>a.pdf\<close> chosen, before any run.\<close>

definition sample_page :: page where
  "sample_page =
     \<lparr>fileInput_files = [''a.pdf''], fileName_textContent = ''a.pdf'',
      translateBtn_disabled = False, progressSection_display = ''none'',
      progressBar_width = ''0%'', status_textContent = ''Ready'',
      apiCalls_textContent = ''3'', cached_textContent = ''7'',
      logContainer = [''File selected: a.pdf''],
      currentSummary = JStr [], summaryDisplay_textContent = [],
      summarySection_display = ''none'', editSummaryBtn_disabled = True,
      exportSummaryBtn_disabled = True, downloadBtn_exists = False, downloadBtn_onclick = None,
      console = [], fetched = [], translationComplete = False, summaryGenerated = False,
      finalDownloadUrl = None\<rparr>"

text \<open>
  \<open>JSON.parse\<close> on the lines of the samples; the one line among them that is not JSON is the
  malformed \<open>{"progress":5"}\<close> of the specification.
\<close>

definition line_start :: string where
  "line_start = ''{\"progress\":10,\"message\":\"start\"}''"

definition line_malformed :: string where
  "line_malformed = ''{\"progress\":5\"}''"

definition line_summary_url :: string where
  "line_summary_url = ''{\"summary\":\"ok\",\"downloadUrl\":\"/x\"}''"

definition line_url_a :: string where
  "line_url_a = ''{\"downloadUrl\":\"/a\"}''"

definition line_url_b :: string where
  "line_url_b = ''{\"downloadUrl\":\"/b\"}''"

definition line_empty_status :: string where
  "line_empty_status = ''{\"status\":\"\",\"cached\":4}''"

definition line_summary :: string where
  "line_summary = ''{\"cached\":4,\"summary\":\"ok\"}''"

definition line_no_text_url :: string where
  "line_no_text_url = ''{\"message\":{\"toString\":1},\"downloadUrl\":\"/x\"}''"

definition line_no_text_status :: string where
  "line_no_text_status = ''{\"status\":{\"toString\":1},\"apiCalls\":5}''"

definition sample_parse :: "string \<Rightarrow> json option" where
  "sample_parse =
     map_of
       [(line_start, JObj [(''progress'', JNum ''10''), (''message'', JStr ''start'')]),
        (line_summary_url, JObj [(''summary'', JStr ''ok''), (''downloadUrl'', JStr ''/x'')]),
        (line_url_a, JObj [(''downloadUrl'', JStr ''/a'')]),
        (line_url_b, JObj [(''downloadUrl'', JStr ''/b'')]),
        (line_empty_status, JObj [(''status'', JStr []), (''cached'', JNum ''4'')]),
        (line_summary, JObj [(''cached'', JNum ''4''), (''summary'', JStr ''ok'')]),
        (line_no_text_url,
         JObj [(''message'', JObj [(''toString'', JNum ''1'')]), (''downloadUrl'', JStr ''/x'')]),
        (line_no_text_status,
         JObj [(''status'', JObj [(''toString'', JNum ''1'')]), (''apiCalls'', JNum ''5'')])]"

section \<open>File selection\<close>

lemma endsWith_iff_append: "endsWith s suf \<longleftrightarrow> (\<exists>p. s = p @ suf)"
proof
  assume "endsWith s suf"
  then have "s = take (length s - length suf) s @ suf"
    by (metis append_take_drop_id endsWith_def)
  then show "\<exists>p. s = p @ suf" ..
next
  assume "\<exists>p. s = p @ suf"
  then show "endsWith s suf" by (auto simp: endsWith_def)
qed

lemma name_suffix_append:
  assumes "CHR ''.'' \<notin> set e"
  shows "name_suffix (p @ CHR ''.'' # e) = Some e"
proof -
  have "takeWhile (\<lambda>c. c \<noteq> CHR ''.'') (rev e @ CHR ''.'' # rev p) =
          rev e @ takeWhile (\<lambda>c. c \<noteq> CHR ''.'') (CHR ''.'' # rev p)"
    using assms by (intro takeWhile_append2) auto
  then have "takeWhile (\<lambda>c. c \<noteq> CHR ''.'') (rev e @ CHR ''.'' # rev p) = rev e"
    by simp
  then show ?thesis by (simp add: name_suffix_def)
qed

lemma name_suffix_SomeD:
  assumes "name_suffix s = Some e"
  shows "\<exists>p. s = p @ CHR ''.'' # e"
proof -
  let ?P = "\<lambda>c. c \<noteq> CHR ''.''"
  from assms have dot: "CHR ''.'' \<in> set s" and e: "e = rev (takeWhile ?P (rev s))"
    by (auto simp: name_suffix_def split: if_splits)
  from dot have "dropWhile ?P (rev s) \<noteq> []"
    by (auto simp: dropWhile_eq_Nil_conv)
  then obtain t where t: "dropWhile ?P (rev s) = CHR ''.'' # t"
    using hd_dropWhile [of ?P "rev s"] by (cases "dropWhile ?P (rev s)") auto
  have "rev s = takeWhile ?P (rev s) @ dropWhile ?P (rev s)" by simp
  then have "rev s = rev e @ CHR ''.'' # t" using t e by simp
  then have "rev (rev s) = rev (rev e @ CHR ''.'' # t)" by (rule arg_cong)
  then have "s = rev t @ CHR ''.'' # e" by simp
  then show ?thesis ..
qed

lemma endsWith_dot_iff:
  assumes "CHR ''.'' \<notin> set e"
  shows "endsWith s (CHR ''.'' # e) \<longleftrightarrow> name_suffix s = Some e"
  using assms name_suffix_append name_suffix_SomeD by (auto simp: endsWith_iff_append)

lemma accepted_name_iff:
  "accepted_name name \<longleftrightarrow> name_suffix (toLowerCase name) \<in> {Some ''docx'', Some ''pdf''}"
proof -
  have "endsWith s ''.docx'' \<longleftrightarrow> name_suffix s = Some ''docx''" for s
    using endsWith_dot_iff [of "''docx''" s] by simp
  moreover have "endsWith s ''.pdf'' \<longleftrightarrow> name_suffix s = Some ''pdf''" for s
    using endsWith_dot_iff [of "''pdf''" s] by simp
  ultimately show ?thesis by (auto simp: accepted_name_def)
qed

text \<open>
  Claim C6. The first file handed over is accepted exactly when the suffix of its lowercased
  name is \<open>docx\<close> or \<open>pdf\<close>. If it is, the name is written to the file name display, the
  translate button is enabled and the selection is logged; if it is not, the display gets the
  request to choose another file instead of the name, the button is disabled and the reason is
  logged. \<open>Report.PDF\<close> has the suffix \<open>pdf\<close> and \<open>report.txt\<close> the suffix \<open>txt\<close>.
\<close>

theorem handleFiles_accepts_by_suffix:
  "(name_suffix (toLowerCase name) \<in> {Some ''docx'', Some ''pdf''} \<longrightarrow>
      handleFiles (name # rest) s =
        s\<lparr>fileName_textContent := name, translateBtn_disabled := False,
          logContainer := logContainer s @ [''File selected: '' @ name]\<rparr>) \<and>
   (name_suffix (toLowerCase name) \<notin> {Some ''docx'', Some ''pdf''} \<longrightarrow>
      handleFiles (name # rest) s =
        s\<lparr>fileName_textContent := ''Please select a DOCX or PDF file'',
          translateBtn_disabled := True,
          logContainer := logContainer s @
            [''Error: Invalid file type. Please select a DOCX or PDF file.'']\<rparr>) \<and>
   name_suffix (toLowerCase ''Report.PDF'') = Some ''pdf'' \<and>
   name_suffix (toLowerCase ''report.txt'') = Some ''txt''"
proof -
  have "name_suffix (toLowerCase ''Report.PDF'') = Some ''pdf''" by code_simp
  moreover have "name_suffix (toLowerCase ''report.txt'') = Some ''txt''" by code_simp
  ultimately show ?thesis
    by (simp add: handleFiles_def addLog_def accepted_name_iff)
qed

text \<open>C6 at \<open>Report.PDF\<close> and at \<open>report.txt\<close>, on the sample page.\<close>

theorem handleFiles_accepts_by_suffix_witness:
  "translateBtn_disabled (handleFiles [''Report.PDF''] sample_page) = False \<and>
   fileName_textContent (handleFiles [''Report.PDF''] sample_page) = ''Report.PDF'' \<and>
   translateBtn_disabled (handleFiles [''report.txt''] sample_page) = True \<and>
   fileName_textContent (handleFiles [''report.txt''] sample_page) =
     ''Please select a DOCX or PDF file''"
  using handleFiles_accepts_by_suffix [of "''Report.PDF''" "[]" sample_page]
    handleFiles_accepts_by_suffix [of "''report.txt''" "[]" sample_page]
  by simp

section \<open>Cutting chunks into lines\<close>

lemma split_from_append_sep:
  "split_from sep cur (a @ sep # b) = split_from sep cur a @ split_from sep [] b"
  by (induction a arbitrary: cur) auto

lemma split_from_snoc_sep: "split_from sep cur (a @ [sep]) = split_from sep cur a @ [[]]"
  using split_from_append_sep [of sep cur a "[]"] by simp

lemma trim_Nil: "trim [] = []"
  by (simp add: trim_def)

lemma chunk_updates_Nil: "chunk_updates [] = []"
  by (simp add: chunk_updates_def split_on_def trim_Nil)

lemma chunk_updates_snoc_nl: "chunk_updates (a @ [nl]) = chunk_updates a"
  by (simp add: chunk_updates_def split_on_def split_from_snoc_sep trim_Nil)

lemma chunk_updates_append:
  assumes "a = [] \<or> last a = nl"
  shows "chunk_updates (a @ b) = chunk_updates a @ chunk_updates b"
proof (cases "a = []")
  case True
  then show ?thesis by (simp add: chunk_updates_Nil)
next
  case False
  with assms have "a = butlast a @ [nl]"
    by (metis append_butlast_last_id)
  then obtain a' where a: "a = a' @ [nl]" ..
  have "chunk_updates (a' @ nl # b) = chunk_updates a' @ chunk_updates b"
    by (simp add: chunk_updates_def split_on_def split_from_append_sep)
  then show ?thesis
    by (simp add: a chunk_updates_snoc_nl)
qed

lemma stream_updates_Cons:
  "stream_updates (text # rest) = chunk_updates text @ stream_updates rest"
  by (simp add: stream_updates_def)

lemma read_loop_fold:
  "read_loop parse chunks ending s =
     read_loop parse [] ending (fold (process_update parse) (stream_updates chunks) s)"
  by (induction chunks arbitrary: s)
    (simp_all add: stream_updates_Cons process_chunk_def, simp add: stream_updates_def)

text \<open>
  Claim C1, as amended. Each chunk is cut into lines on its own and nothing is carried over to
  the next chunk. When every chunk but the last is empty or ends with a line feed, the lines of
  the run are the non-blank lines of the whole text, and the reads leave the page as the whole
  text in one chunk would: cutting the stream at line ends does not change what is decoded.
\<close>

theorem chunks_cut_at_line_ends:
  assumes "\<forall>c \<in> set (butlast chunks). c = [] \<or> last c = nl"
  shows "stream_updates chunks = chunk_updates (concat chunks) \<and>
         read_loop parse chunks ending s = read_loop parse [concat chunks] ending s"
proof -
  from assms have "stream_updates chunks = chunk_updates (concat chunks)"
  proof (induction chunks)
    case Nil
    show ?case by (simp add: stream_updates_def chunk_updates_Nil)
  next
    case (Cons c cs)
    show ?case
    proof (cases "cs = []")
      case True
      then show ?thesis by (simp add: stream_updates_def)
    next
      case False
      with Cons.prems have c: "c = [] \<or> last c = nl"
        and rest: "\<forall>c \<in> set (butlast cs). c = [] \<or> last c = nl"
        by auto
      from Cons.IH [OF rest] have "stream_updates cs = chunk_updates (concat cs)" .
      then show ?thesis
        using chunk_updates_append [OF c, of "concat cs"] by (simp add: stream_updates_def)
    qed
  qed
  then have lines: "stream_updates chunks = chunk_updates (concat chunks)"
    and same: "stream_updates chunks = stream_updates [concat chunks]"
    by (simp_all add: stream_updates_def)
  have "read_loop parse chunks ending s =
      read_loop parse [] ending (fold (process_update parse) (stream_updates chunks) s)"
    by (rule read_loop_fold)
  also have "\<dots> =
      read_loop parse [] ending (fold (process_update parse) (stream_updates [concat chunks]) s)"
    by (simp only: same [symmetric])
  also have "\<dots> = read_loop parse [concat chunks] ending s"
    by (rule read_loop_fold [symmetric])
  finally show ?thesis using lines by simp
qed

text \<open>C1 as amended, at a stream of three lines cut after the second.\<close>

theorem chunks_cut_at_line_ends_witness:
  "stream_updates [line_start @ [nl] @ line_malformed @ [nl], line_summary_url @ [nl]] =
     [line_start, line_malformed, line_summary_url] \<and>
   chunk_updates (line_start @ [nl] @ line_malformed @ [nl] @ line_summary_url @ [nl]) =
     [line_start, line_malformed, line_summary_url]"
proof -
  have "chunk_updates (line_start @ [nl] @ line_malformed @ [nl] @ line_summary_url @ [nl]) =
     [line_start, line_malformed, line_summary_url]"
    by code_simp
  then show ?thesis
    using chunks_cut_at_line_ends
      [of "[line_start @ [nl] @ line_malformed @ [nl], line_summary_url @ [nl]]",
        THEN conjunct1]
    by (simp add: nl_def)
qed

text \<open>
  C1 as stated fails: the same text, cut inside a record, gives two fragments of the record
  instead of the record.
\<close>

theorem split_record_counterexample:
  "concat [''{\"progress\"'', '':10}'' @ [nl]] = ''{\"progress\":10}'' @ [nl] \<and>
   stream_updates [''{\"progress\":10}'' @ [nl]] = [''{\"progress\":10}''] \<and>
   stream_updates [''{\"progress\"'', '':10}'' @ [nl]] = [''{\"progress\"'', '':10}''] \<and>
   stream_updates [''{\"progress\"'', '':10}'' @ [nl]] \<noteq> stream_updates [''{\"progress\":10}'' @ [nl]]"
  by code_simp

section \<open>Statements and records\<close>

lemma run_statements_keeps:
  assumes "\<And>st p p'. st \<in> set sts \<Longrightarrow> st p = Inr p' \<Longrightarrow> f p' = f p"
  shows "f (snd (run_statements sts s)) = f s"
  using assms
proof (induction sts arbitrary: s)
  case Nil
  show ?case by simp
next
  case (Cons st sts)
  show ?case
  proof (cases "st s")
    case (Inl e)
    then show ?thesis by simp
  next
    case (Inr s1)
    have "f (snd (run_statements sts s1)) = f s1"
    proof (rule Cons.IH)
      fix st' p p'
      assume "st' \<in> set sts" and "st' p = Inr p'"
      then show "f p' = f p" using Cons.prems [of st' p p'] by simp
    qed
    moreover have "f s1 = f s"
      using Cons.prems [of st s s1] Inr by simp
    ultimately show ?thesis using Inr by simp
  qed
qed

lemma run_statements_None:
  "fst (run_statements sts s) = None \<Longrightarrow> st \<in> set sts \<Longrightarrow> \<exists>p p'. st p = Inr p'"
  by (induction sts arbitrary: s) (auto split: sum.splits)

lemma write_text_Inr: "write_text conv wr v p = Inr p' \<Longrightarrow> conv v \<noteq> None"
  by (auto simp: write_text_def split: option.splits)

lemma textContent_of_None: "textContent_of v = None \<longleftrightarrow> js_String v = None"
  by (cases v) (simp_all add: textContent_of_def)

lemma set_progress_text:
  "has_text (get_property data ''progress'') \<Longrightarrow>
     set_progress data p =
       Inr (p\<lparr>progressBar_width :=
              when_defined (get_property data ''progress'') (\<lambda>v old. text_of v @ ''%'')
                (progressBar_width p)\<rparr>)"
  by (auto simp: has_text_def set_progress_def if_defined_def write_text_def when_defined_def
      text_of_def split: option.splits)

lemma set_status_text:
  "truthy_has_text (get_property data ''status'') \<Longrightarrow>
     set_status data p =
       Inr (p\<lparr>status_textContent :=
              when_truthy (get_property data ''status'') (\<lambda>v old. content_of v)
                (status_textContent p)\<rparr>)"
  by (auto simp: truthy_has_text_def set_status_def if_truthy_def write_text_def when_truthy_def
      content_of_def textContent_of_None split: option.splits)

lemma set_apiCalls_text:
  "has_text (get_property data ''apiCalls'') \<Longrightarrow>
     set_apiCalls data p =
       Inr (p\<lparr>apiCalls_textContent :=
              when_defined (get_property data ''apiCalls'') (\<lambda>v old. content_of v)
                (apiCalls_textContent p)\<rparr>)"
  by (auto simp: has_text_def set_apiCalls_def if_defined_def write_text_def when_defined_def
      content_of_def textContent_of_None split: option.splits)

lemma set_cached_text:
  "has_text (get_property data ''cached'') \<Longrightarrow>
     set_cached data p =
       Inr (p\<lparr>cached_textContent :=
              when_defined (get_property data ''cached'') (\<lambda>v old. content_of v)
                (cached_textContent p)\<rparr>)"
  by (auto simp: has_text_def set_cached_def if_defined_def write_text_def when_defined_def
      content_of_def textContent_of_None split: option.splits)

lemma log_message_text:
  "truthy_has_text (get_property data ''message'') \<Longrightarrow>
     log_message data p =
       Inr (p\<lparr>logContainer :=
              when_truthy (get_property data ''message'') (\<lambda>v old. old @ [text_of v])
                (logContainer p)\<rparr>)"
  by (auto simp: truthy_has_text_def log_message_def if_truthy_def write_text_def when_truthy_def
      text_of_def addLog_def split: option.splits)

lemma print_downloadUrl_eq:
  "print_downloadUrl data p =
     Inr (p\<lparr>console :=
            when_truthy (get_property data ''downloadUrl'')
              (\<lambda>v old. old @ [Console_log ''Download URL received:'' v]) (console p)\<rparr>)"
  by (auto simp: print_downloadUrl_def if_truthy_def when_truthy_def split: option.splits)

lemma handleProgressUpdate_texts:
  assumes "data \<noteq> JNull" and "fields_have_text data"
  shows "handleProgressUpdate data s =
    (None,
     s\<lparr>progressBar_width :=
         when_defined (get_property data ''progress'') (\<lambda>v old. text_of v @ ''%'')
           (progressBar_width s),
       status_textContent :=
         when_truthy (get_property data ''status'') (\<lambda>v old. content_of v)
           (status_textContent s),
       apiCalls_textContent :=
         when_defined (get_property data ''apiCalls'') (\<lambda>v old. content_of v)
           (apiCalls_textContent s),
       cached_textContent :=
         when_defined (get_property data ''cached'') (\<lambda>v old. content_of v)
           (cached_textContent s),
       logContainer :=
         when_truthy (get_property data ''message'') (\<lambda>v old. old @ [text_of v])
           (logContainer s),
       console :=
         when_truthy (get_property data ''downloadUrl'')
           (\<lambda>v old. old @ [Console_log ''Download URL received:'' v]) (console s)\<rparr>)"
  using assms
  by (simp add: handleProgressUpdate_def fields_have_text_def set_progress_text set_status_text
      set_apiCalls_text set_cached_text log_message_text print_downloadUrl_eq)

lemma handleProgressUpdate_None_iff:
  assumes "data \<noteq> JNull"
  shows "fst (handleProgressUpdate data s) = None \<longleftrightarrow> fields_have_text data"
proof
  assume "fields_have_text data"
  then show "fst (handleProgressUpdate data s) = None"
    using assms by (simp add: handleProgressUpdate_texts)
next
  assume n: "fst (handleProgressUpdate data s) = None"
  let ?sts = "[set_progress data, set_status data, set_apiCalls data, set_cached data,
              log_message data, print_downloadUrl data]"
  from n assms have r: "fst (run_statements ?sts s) = None"
    by (simp add: handleProgressUpdate_def)
  have "\<exists>p p'. set_progress data p = Inr p'"
    by (rule run_statements_None [OF r]) simp
  then have 1: "has_text (get_property data ''progress'')"
    by (auto simp: set_progress_def if_defined_def write_text_def has_text_def
        split: option.splits)
  have "\<exists>p p'. set_status data p = Inr p'"
    by (rule run_statements_None [OF r]) simp
  then have 2: "truthy_has_text (get_property data ''status'')"
    by (auto simp: set_status_def if_truthy_def write_text_def truthy_has_text_def
        textContent_of_None split: option.splits if_splits)
  have "\<exists>p p'. set_apiCalls data p = Inr p'"
    by (rule run_statements_None [OF r]) simp
  then have 3: "has_text (get_property data ''apiCalls'')"
    by (auto simp: set_apiCalls_def if_defined_def write_text_def has_text_def
        textContent_of_None split: option.splits)
  have "\<exists>p p'. set_cached data p = Inr p'"
    by (rule run_statements_None [OF r]) simp
  then have 4: "has_text (get_property data ''cached'')"
    by (auto simp: set_cached_def if_defined_def write_text_def has_text_def
        textContent_of_None split: option.splits)
  have "\<exists>p p'. log_message data p = Inr p'"
    by (rule run_statements_None [OF r]) simp
  then have 5: "truthy_has_text (get_property data ''message'')"
    by (auto simp: log_message_def if_truthy_def write_text_def truthy_has_text_def
        split: option.splits if_splits)
  from 1 2 3 4 5 show "fields_have_text data"
    by (simp add: fields_have_text_def)
qed

lemma handleProgressUpdate_keeps:
  assumes "\<And>p w. f (p\<lparr>progressBar_width := w\<rparr>) = f p"
    and "\<And>p w. f (p\<lparr>status_textContent := w\<rparr>) = f p"
    and "\<And>p w. f (p\<lparr>apiCalls_textContent := w\<rparr>) = f p"
    and "\<And>p w. f (p\<lparr>cached_textContent := w\<rparr>) = f p"
    and "\<And>p w. f (p\<lparr>logContainer := w\<rparr>) = f p"
    and "\<And>p w. f (p\<lparr>console := w\<rparr>) = f p"
  shows "f (snd (handleProgressUpdate data s)) = f s"
proof (cases "data = JNull")
  case True
  then show ?thesis by (simp add: handleProgressUpdate_def)
next
  case False
  have "f (snd (run_statements
          [set_progress data, set_status data, set_apiCalls data, set_cached data,
           log_message data, print_downloadUrl data] s)) = f s"
  proof (rule run_statements_keeps)
    fix st p p'
    assume "st \<in> set [set_progress data, set_status data, set_apiCalls data, set_cached data,
           log_message data, print_downloadUrl data]" and "st p = Inr p'"
    then show "f p' = f p"
      using assms
      by (auto simp: set_progress_def set_status_def set_apiCalls_def set_cached_def
          log_message_def print_downloadUrl_def if_defined_def if_truthy_def write_text_def
          addLog_def split: option.splits if_splits)
  qed
  with False show ?thesis by (simp add: handleProgressUpdate_def)
qed

lemma handleProgressUpdate_frame:
  "finalDownloadUrl (snd (handleProgressUpdate data s)) = finalDownloadUrl s"
  "translationComplete (snd (handleProgressUpdate data s)) = translationComplete s"
  "summaryGenerated (snd (handleProgressUpdate data s)) = summaryGenerated s"
  "currentSummary (snd (handleProgressUpdate data s)) = currentSummary s"
  "summaryDisplay_textContent (snd (handleProgressUpdate data s)) = summaryDisplay_textContent s"
  "summarySection_display (snd (handleProgressUpdate data s)) = summarySection_display s"
  "editSummaryBtn_disabled (snd (handleProgressUpdate data s)) = editSummaryBtn_disabled s"
  "exportSummaryBtn_disabled (snd (handleProgressUpdate data s)) = exportSummaryBtn_disabled s"
  by (rule handleProgressUpdate_keeps; simp)+

lemma summary_block_frame:
  "finalDownloadUrl (snd (summary_block data s)) = finalDownloadUrl s"
  "translationComplete (snd (summary_block data s)) = translationComplete s"
  "progressBar_width (snd (summary_block data s)) = progressBar_width s"
  "status_textContent (snd (summary_block data s)) = status_textContent s"
  "apiCalls_textContent (snd (summary_block data s)) = apiCalls_textContent s"
  "cached_textContent (snd (summary_block data s)) = cached_textContent s"
  by (simp_all add: summary_block_def write_text_def addLog_def split: option.splits)

lemma summary_block_text:
  assumes "summary_has_text data"
  shows "summary_block data s =
    (None,
     s\<lparr>summaryGenerated :=
         when_truthy (get_property data ''summary'') (\<lambda>v old. True) (summaryGenerated s),
       currentSummary :=
         when_truthy (get_property data ''summary'') (\<lambda>v old. v) (currentSummary s),
       summaryDisplay_textContent :=
         when_truthy (get_property data ''summary'') (\<lambda>v old. content_of v)
           (summaryDisplay_textContent s),
       summarySection_display :=
         when_truthy (get_property data ''summary'') (\<lambda>v old. ''block'')
           (summarySection_display s),
       editSummaryBtn_disabled :=
         when_truthy (get_property data ''summary'') (\<lambda>v old. False) (editSummaryBtn_disabled s),
       exportSummaryBtn_disabled :=
         when_truthy (get_property data ''summary'') (\<lambda>v old. False)
           (exportSummaryBtn_disabled s),
       logContainer :=
         when_truthy (get_property data ''summary'')
           (\<lambda>v old. old @ [''Document summary generated and displayed'']) (logContainer s)\<rparr>)"
  using assms
  by (auto simp: summary_has_text_def truthy_has_text_def summary_block_def write_text_def
      when_truthy_def addLog_def content_of_def textContent_of_None split: option.splits)

lemma process_update_not_json:
  "parse update = None \<Longrightarrow> process_update parse update s = addLog (''Non-JSON update: '' @ update) s"
  by (simp add: process_update_def update_try_def)

lemma process_update_thrown:
  "parse update = Some data \<Longrightarrow> fst (handleProgressUpdate data s) \<noteq> None \<Longrightarrow>
     process_update parse update s =
       addLog (''Non-JSON update: '' @ update) (snd (handleProgressUpdate data s))"
  by (auto simp: process_update_def update_try_def split: prod.splits option.splits)

lemma process_update_url:
  "parse update = Some data \<Longrightarrow> fst (handleProgressUpdate data s) = None \<Longrightarrow>
   truthy_opt (get_property data ''downloadUrl'') \<Longrightarrow>
     process_update parse update s =
       addLog (''Non-JSON update: '' @ update)
         ((snd (handleProgressUpdate data s))\<lparr>finalDownloadUrl := get_property data ''downloadUrl'',
            translationComplete := True\<rparr>)"
  by (auto simp: process_update_def update_try_def downloadUrl_block_def
      split: prod.splits option.splits)

lemma process_update_plain:
  "parse update = Some data \<Longrightarrow> fst (handleProgressUpdate data s) = None \<Longrightarrow>
   \<not> truthy_opt (get_property data ''downloadUrl'') \<Longrightarrow>
     process_update parse update s =
       (case summary_block data (snd (handleProgressUpdate data s)) of
          (None, s1) \<Rightarrow> s1
        | (Some e, s1) \<Rightarrow> addLog (''Non-JSON update: '' @ update) s1)"
  by (auto simp: process_update_def update_try_def downloadUrl_block_def
      split: prod.splits option.splits)

lemma handleProgressUpdate_null: "handleProgressUpdate JNull s = (Some TypeError, s)"
  by (simp add: handleProgressUpdate_def)

section \<open>The download URL of a run\<close>

lemma recorded_url_of_truthy: "recorded_url_of parse u = Some url \<Longrightarrow> truthy url"
  by (auto simp: recorded_url_of_def truthy_opt_def split: option.splits if_splits)

lemma process_update_url_fields:
  "finalDownloadUrl (process_update parse u s) =
     (case recorded_url_of parse u of None \<Rightarrow> finalDownloadUrl s | Some url \<Rightarrow> Some url) \<and>
   translationComplete (process_update parse u s) =
     (translationComplete s \<or> recorded_url_of parse u \<noteq> None)"
proof (cases "parse u")
  case None
  then show ?thesis
    by (simp add: process_update_not_json recorded_url_of_def addLog_def)
next
  case (Some data)
  show ?thesis
  proof (cases "data = JNull")
    case True
    with Some show ?thesis
      by (simp add: process_update_thrown handleProgressUpdate_null recorded_url_of_def
          addLog_def truthy_opt_def)
  next
    case False
    note h = handleProgressUpdate_None_iff [OF False, of s]
    show ?thesis
    proof (cases "fields_have_text data")
      case no_text: False
      with h have "fst (handleProgressUpdate data s) \<noteq> None" by simp
      with Some no_text show ?thesis
        by (simp add: process_update_thrown recorded_url_of_def addLog_def
            handleProgressUpdate_frame)
    next
      case texts: True
      with h have ok: "fst (handleProgressUpdate data s) = None" by simp
      show ?thesis
      proof (cases "truthy_opt (get_property data ''downloadUrl'')")
        case True
        with Some ok texts show ?thesis
          by (auto simp: process_update_url recorded_url_of_def addLog_def truthy_opt_def
              split: option.splits)
      next
        case False
        have "finalDownloadUrl (snd (summary_block data (snd (handleProgressUpdate data s)))) =
            finalDownloadUrl s"
          and "translationComplete (snd (summary_block data (snd (handleProgressUpdate data s)))) =
            translationComplete s"
          by (simp_all add: summary_block_frame handleProgressUpdate_frame)
        with Some ok False show ?thesis
          by (auto simp: process_update_plain recorded_url_of_def addLog_def
              split: prod.splits option.splits)
      qed
    qed
  qed
qed

lemma recorded_urls_Cons:
  "recorded_urls parse (u # us) =
     (case recorded_url_of parse u of
        None \<Rightarrow> recorded_urls parse us
      | Some url \<Rightarrow> url # recorded_urls parse us)"
  by (simp add: recorded_urls_def split: option.splits)

lemma recorded_urls_Nil: "recorded_urls parse [] = []"
  by (simp add: recorded_urls_def)

lemma recorded_urls_truthy: "url \<in> set (recorded_urls parse lines) \<Longrightarrow> truthy url"
  by (induction lines) (auto simp: recorded_urls_Nil recorded_urls_Cons recorded_url_of_truthy
      split: option.splits)

lemma fold_finalDownloadUrl:
  "finalDownloadUrl (fold (process_update parse) lines s) =
     (if recorded_urls parse lines = [] then finalDownloadUrl s
      else Some (last (recorded_urls parse lines)))"
  by (induction lines arbitrary: s)
    (auto simp: recorded_urls_Nil recorded_urls_Cons process_update_url_fields
      split: option.splits)

lemma fold_translationComplete:
  "translationComplete (fold (process_update parse) lines s) =
     (translationComplete s \<or> recorded_urls parse lines \<noteq> [])"
  by (induction lines arbitrary: s)
    (auto simp: recorded_urls_Nil recorded_urls_Cons process_update_url_fields
      split: option.splits)

text \<open>
  Claim C2, as amended. A line gets its download URL recorded when it parses, the fields before
  the download URL are applied without an error and its \<open>downloadUrl\<close> is truthy. The URL
  recorded at the end of the reads is that of the last such line, if there is one, and the
  value from before the reads otherwise: each such line overwrites what was recorded before it,
  and any other line leaves it as it was.
\<close>

theorem last_downloadUrl_wins:
  "finalDownloadUrl (snd (read_loop parse chunks ending s)) =
     (if recorded_urls parse (stream_updates chunks) = [] then finalDownloadUrl s
      else Some (last (recorded_urls parse (stream_updates chunks)))) \<and>
   finalDownloadUrl (process_update parse update s) =
     (case recorded_url_of parse update of
        None \<Rightarrow> finalDownloadUrl s
      | Some url \<Rightarrow> Some url)"
proof -
  have "finalDownloadUrl (snd (read_loop parse [] ending t)) = finalDownloadUrl t" for t
    by (cases ending) (simp_all add: addLog_def)
  then show ?thesis
    by (simp add: read_loop_fold [of parse chunks] fold_finalDownloadUrl
        process_update_url_fields)
qed

text \<open>
  C2 as amended, at two download URLs with a line between them whose message has no text, and
  at a stream that ends with that line.
\<close>

theorem last_downloadUrl_wins_witness:
  "recorded_urls sample_parse
     (stream_updates [line_url_a @ [nl], line_no_text_url @ [nl] @ line_url_b @ [nl]]) =
     [JStr ''/a'', JStr ''/b''] \<and>
   finalDownloadUrl
     (snd (read_loop sample_parse
        [line_url_a @ [nl], line_no_text_url @ [nl] @ line_url_b @ [nl]] Done sample_page)) =
     Some (JStr ''/b'') \<and>
   recorded_urls sample_parse (stream_updates [line_url_a @ [nl] @ line_no_text_url @ [nl]]) =
     [JStr ''/a''] \<and>
   finalDownloadUrl
     (snd (read_loop sample_parse [line_url_a @ [nl] @ line_no_text_url @ [nl]] Done sample_page)) =
     Some (JStr ''/a'')"
proof -
  have c: "recorded_urls sample_parse
        (stream_updates [line_url_a @ [nl], line_no_text_url @ [nl] @ line_url_b @ [nl]]) =
      [JStr ''/a'', JStr ''/b'']"
    by code_simp
  have d: "recorded_urls sample_parse
        (stream_updates [line_url_a @ [nl] @ line_no_text_url @ [nl]]) = [JStr ''/a'']"
    by code_simp
  show ?thesis
    using c d
      last_downloadUrl_wins
        [where parse = sample_parse and s = sample_page and ending = Done
          and chunks = "[line_url_a @ [nl], line_no_text_url @ [nl] @ line_url_b @ [nl]]",
          THEN conjunct1]
      last_downloadUrl_wins
        [where parse = sample_parse and s = sample_page and ending = Done
          and chunks = "[line_url_a @ [nl] @ line_no_text_url @ [nl]]", THEN conjunct1]
    by simp
qed

text \<open>
  C2 as stated fails: of two records with the download URLs \<open>/a\<close> and \<open>/b\<close>, in this
  order, the second is the one recorded and bound to the download button.
\<close>

theorem first_downloadUrl_counterexample:
  "sample_parse line_url_a = Some (JObj [(''downloadUrl'', JStr ''/a'')]) \<and>
   sample_parse line_url_b = Some (JObj [(''downloadUrl'', JStr ''/b'')]) \<and>
   stream_updates [line_url_a @ [nl] @ line_url_b @ [nl]] = [line_url_a, line_url_b] \<and>
   finalDownloadUrl
     (snd (read_loop sample_parse [line_url_a @ [nl] @ line_url_b @ [nl]] Done sample_page)) =
     Some (JStr ''/b'') \<and>
   downloadBtn_onclick
     (snd (translate_run sample_parse
        (Fetch_response True 200 [line_url_a @ [nl] @ line_url_b @ [nl]] Done) sample_page)) =
     Some (JStr ''/b'')"
  by code_simp

section \<open>Malformed lines\<close>

lemma read_loop_error:
  "fst (read_loop parse chunks ending s) = (case ending of Done \<Rightarrow> None | Read_rejects m \<Rightarrow> Some m)"
  by (induction chunks arbitrary: s) (cases ending; simp)+

lemma finish_not_Failed: "fst (finish t) \<noteq> Failed"
  by (simp add: finish_def finish_incomplete_def split: option.splits)

lemma translate_run_Done_not_Failed:
  "fst (translate_run parse (Fetch_response True status chunks Done) s) \<noteq> Failed"
proof -
  have "fst (read_loop parse chunks Done t) = None" for t
    by (simp add: read_loop_error)
  then show ?thesis
    by (simp add: translate_run_def try_block_def read_response_def Let_def finish_not_Failed
        split: prod.splits option.splits)
qed

text \<open>
  Claim C5. A line that \<open>JSON.parse\<close> rejects adds one entry to the log, the line itself
  under the heading \<open>Non-JSON update\<close>, and changes nothing else of the page. The chunk and
  the stream that hold the line are processed to their end: the lines after it are applied to
  the page so obtained, the reads throw no error but that of a rejected read, and a run whose
  stream ends does not fail.
\<close>

theorem malformed_line_only_logged:
  assumes "parse update = None"
  shows "process_update parse update s =
           s\<lparr>logContainer := logContainer s @ [''Non-JSON update: '' @ update]\<rparr> \<and>
         (\<forall>before after. chunk_updates chunk = before @ update # after \<longrightarrow>
            process_chunk parse chunk s =
              fold (process_update parse) after
                (addLog (''Non-JSON update: '' @ update) (fold (process_update parse) before s))) \<and>
         (\<forall>before after. stream_updates chunks = before @ update # after \<longrightarrow>
            read_loop parse chunks ending s =
              read_loop parse [] ending
                (fold (process_update parse) after
                   (addLog (''Non-JSON update: '' @ update)
                      (fold (process_update parse) before s)))) \<and>
         fst (read_loop parse chunks ending s) =
           (case ending of Done \<Rightarrow> None | Read_rejects m \<Rightarrow> Some m) \<and>
         fst (translate_run parse (Fetch_response True status chunks Done) s) \<noteq> Failed"
proof -
  have one: "process_update parse update t = addLog (''Non-JSON update: '' @ update) t" for t
    using assms by (rule process_update_not_json)
  have "process_chunk parse chunk s =
      fold (process_update parse) after
        (addLog (''Non-JSON update: '' @ update) (fold (process_update parse) before s))"
    if "chunk_updates chunk = before @ update # after" for before after
    using that by (simp add: process_chunk_def one)
  moreover have "read_loop parse chunks ending s =
      read_loop parse [] ending
        (fold (process_update parse) after
           (addLog (''Non-JSON update: '' @ update) (fold (process_update parse) before s)))"
    if "stream_updates chunks = before @ update # after" for before after
    using that by (simp add: read_loop_fold [of parse chunks] one)
  ultimately show ?thesis
    by (simp add: one addLog_def read_loop_error translate_run_Done_not_Failed)
qed

text \<open>
  C5 at the malformed line of the specification, followed by a line in the same chunk and by a
  line in the next chunk, both applied.
\<close>

theorem malformed_line_only_logged_witness:
  "sample_parse line_malformed = None \<and>
   process_update sample_parse line_malformed sample_page =
     sample_page\<lparr>logContainer := [''File selected: a.pdf'', ''Non-JSON update: '' @ line_malformed]\<rparr> \<and>
   process_chunk sample_parse (line_malformed @ [nl] @ line_start @ [nl]) sample_page =
     process_update sample_parse line_start
       (addLog (''Non-JSON update: '' @ line_malformed) sample_page) \<and>
   progressBar_width
     (process_chunk sample_parse (line_malformed @ [nl] @ line_start @ [nl]) sample_page) = ''10%'' \<and>
   cached_textContent
     (snd (read_loop sample_parse [line_malformed @ [nl] @ line_start @ [nl], line_summary @ [nl]]
        Done sample_page)) = ''4'' \<and>
   fst (read_loop sample_parse [line_malformed @ [nl] @ line_start @ [nl], line_summary @ [nl]]
        Done sample_page) = None"
proof -
  have h: "sample_parse line_malformed = None" by code_simp
  note w = malformed_line_only_logged
      [where parse = sample_parse and update = line_malformed and s = sample_page
        and chunk = "line_malformed @ [nl] @ line_start @ [nl]"
        and chunks = "[line_malformed @ [nl] @ line_start @ [nl], line_summary @ [nl]]"
        and ending = Done and status = 200, OF h]
  have c: "chunk_updates (line_malformed @ [nl] @ line_start @ [nl]) =
      [] @ line_malformed # [line_start]"
    by code_simp
  from w have "\<forall>before after.
      chunk_updates (line_malformed @ [nl] @ line_start @ [nl]) = before @ line_malformed # after \<longrightarrow>
      process_chunk sample_parse (line_malformed @ [nl] @ line_start @ [nl]) sample_page =
        fold (process_update sample_parse) after
          (addLog (''Non-JSON update: '' @ line_malformed)
             (fold (process_update sample_parse) before sample_page))"
    by (elim conjE)
  with c have chunk: "process_chunk sample_parse (line_malformed @ [nl] @ line_start @ [nl]) sample_page =
        fold (process_update sample_parse) [line_start]
          (addLog (''Non-JSON update: '' @ line_malformed)
             (fold (process_update sample_parse) [] sample_page))"
    by blast
  have width: "progressBar_width
     (process_chunk sample_parse (line_malformed @ [nl] @ line_start @ [nl]) sample_page) = ''10%''"
    by code_simp
  have cached: "cached_textContent
     (snd (read_loop sample_parse [line_malformed @ [nl] @ line_start @ [nl], line_summary @ [nl]]
        Done sample_page)) = ''4''"
    by code_simp
  have l: "logContainer sample_page = [''File selected: a.pdf'']"
    by (simp add: sample_page_def)
  from w have one: "process_update sample_parse line_malformed sample_page =
      sample_page\<lparr>logContainer := logContainer sample_page @ [''Non-JSON update: '' @ line_malformed]\<rparr>"
    by (elim conjE)
  from w have err: "fst (read_loop sample_parse
        [line_malformed @ [nl] @ line_start @ [nl], line_summary @ [nl]] Done sample_page) =
      (case Done of Done \<Rightarrow> None | Read_rejects m \<Rightarrow> Some m)"
    by (elim conjE)
  from h one chunk width cached err show ?thesis
    by (simp add: l)
qed

section \<open>Lines with a download URL\<close>

lemma update_try_throws_after_url:
  assumes "parse update = Some data" and "truthy_opt (get_property data ''downloadUrl'')"
  shows "fst (update_try parse update s) \<noteq> None"
  using assms
  by (auto simp: update_try_def downloadUrl_block_def split: prod.splits option.splits)

lemma process_update_with_url:
  assumes "parse update = Some data" and "truthy_opt (get_property data ''downloadUrl'')"
  shows "process_update parse update s =
     addLog (''Non-JSON update: '' @ update)
       (if fields_have_text data
        then (snd (handleProgressUpdate data s))\<lparr>finalDownloadUrl := get_property data ''downloadUrl'',
               translationComplete := True\<rparr>
        else snd (handleProgressUpdate data s))"
proof -
  from assms(2) have n: "data \<noteq> JNull" by (auto simp: truthy_opt_def)
  show ?thesis
  proof (cases "fields_have_text data")
    case True
    with n have "fst (handleProgressUpdate data s) = None"
      by (simp add: handleProgressUpdate_None_iff)
    with assms True show ?thesis by (simp add: process_update_url)
  next
    case False
    with n have "fst (handleProgressUpdate data s) \<noteq> None"
      by (simp add: handleProgressUpdate_None_iff)
    with assms False show ?thesis by (simp add: process_update_thrown)
  qed
qed

text \<open>
  Claim C8, as amended. A line that parses to an object with a truthy \<open>downloadUrl\<close> always
  ends in the \<open>catch\<close>: one entry \<open>Non-JSON update\<close> with the line is appended after what
  \<open>handleProgressUpdate\<close> has logged, and whatever \<open>summary\<close> the record carries leaves the
  summary display, the kept summary and the summary buttons as they were. When the fields
  before the download URL are applied without an error, the URL is recorded, the run is marked
  complete and the error is the ReferenceError of line 191; when one of them has no text, the
  error comes before line 189 and the URL is not recorded.
\<close>

theorem downloadUrl_line_raises:
  assumes "parse update = Some (JObj kvs)"
    and "map_of kvs ''downloadUrl'' = Some url"
    and "truthy url"
  shows "fst (update_try parse update s) \<noteq> None \<and>
         logContainer (process_update parse update s) =
           logContainer (snd (handleProgressUpdate (JObj kvs) s)) @
             [''Non-JSON update: '' @ update] \<and>
         summaryGenerated (process_update parse update s) = summaryGenerated s \<and>
         currentSummary (process_update parse update s) = currentSummary s \<and>
         summaryDisplay_textContent (process_update parse update s) = summaryDisplay_textContent s \<and>
         summarySection_display (process_update parse update s) = summarySection_display s \<and>
         editSummaryBtn_disabled (process_update parse update s) = editSummaryBtn_disabled s \<and>
         exportSummaryBtn_disabled (process_update parse update s) = exportSummaryBtn_disabled s \<and>
         (fields_have_text (JObj kvs) \<longrightarrow>
            fst (update_try parse update s) = Some ReferenceError \<and>
            finalDownloadUrl (process_update parse update s) = Some url \<and>
            translationComplete (process_update parse update s) \<and>
            logContainer (process_update parse update s) =
              when_truthy (map_of kvs ''message'') (\<lambda>v old. old @ [text_of v]) (logContainer s) @
                [''Non-JSON update: '' @ update]) \<and>
         (\<not> fields_have_text (JObj kvs) \<longrightarrow>
            finalDownloadUrl (process_update parse update s) = finalDownloadUrl s \<and>
            translationComplete (process_update parse update s) = translationComplete s)"
proof -
  from assms have t: "truthy_opt (get_property (JObj kvs) ''downloadUrl'')"
    by (simp add: truthy_opt_def)
  note p = process_update_with_url
      [where parse = parse and update = update and data = "JObj kvs" and s = s, OF assms(1) t]
  have thrown: "fst (update_try parse update s) \<noteq> None"
    using assms(1) t by (rule update_try_throws_after_url)
  have ref: "fst (update_try parse update s) = Some ReferenceError"
    if "fields_have_text (JObj kvs)"
  proof -
    from that have "fst (handleProgressUpdate (JObj kvs) s) = None"
      by (simp add: handleProgressUpdate_None_iff)
    with assms(1) t show ?thesis
      by (auto simp: update_try_def downloadUrl_block_def split: prod.splits option.splits)
  qed
  have log: "logContainer (snd (handleProgressUpdate (JObj kvs) s)) =
      when_truthy (map_of kvs ''message'') (\<lambda>v old. old @ [text_of v]) (logContainer s)"
    if "fields_have_text (JObj kvs)"
    using that by (simp add: handleProgressUpdate_texts)
  show ?thesis
    using assms(2) thrown ref log
    by (simp add: p addLog_def handleProgressUpdate_frame)
qed

text \<open>C8 as amended, at a record with a summary and a download URL.\<close>

theorem downloadUrl_line_raises_witness:
  "sample_parse line_summary_url = Some (JObj [(''summary'', JStr ''ok''), (''downloadUrl'', JStr ''/x'')]) \<and>
   finalDownloadUrl (process_update sample_parse line_summary_url sample_page) = Some (JStr ''/x'') \<and>
   logContainer (process_update sample_parse line_summary_url sample_page) =
     [''File selected: a.pdf'', ''Non-JSON update: '' @ line_summary_url] \<and>
   currentSummary (process_update sample_parse line_summary_url sample_page) = JStr []"
proof -
  let ?kvs = "[(''summary'', JStr ''ok''), (''downloadUrl'', JStr ''/x'')]"
  let ?p = "process_update sample_parse line_summary_url sample_page"
  have h: "sample_parse line_summary_url = Some (JObj ?kvs)"
    by code_simp
  have m: "map_of ?kvs ''downloadUrl'' = Some (JStr ''/x'')"
    by simp
  have t: "truthy (JStr ''/x'')" by simp
  have f: "fields_have_text (JObj ?kvs)" by code_simp
  note w = downloadUrl_line_raises
      [where parse = sample_parse and update = line_summary_url and s = sample_page, OF h m t]
  from w have "currentSummary ?p = currentSummary sample_page"
    by (elim conjE)
  then have summary: "currentSummary ?p = JStr []"
    by (simp add: sample_page_def)
  from w f have url: "finalDownloadUrl ?p = Some (JStr ''/x'')"
    by blast
  from w f have "logContainer ?p =
      when_truthy (map_of ?kvs ''message'') (\<lambda>v old. old @ [text_of v]) (logContainer sample_page) @
        [''Non-JSON update: '' @ line_summary_url]"
    by blast
  then have log: "logContainer ?p = [''File selected: a.pdf'', ''Non-JSON update: '' @ line_summary_url]"
    by (simp add: when_truthy_def sample_page_def)
  from h url log summary show ?thesis by (intro conjI)
qed

text \<open>
  C8 as stated fails: a record with a truthy \<open>downloadUrl\<close> whose message is an object with
  a \<open>toString\<close> property throws on line 265, and its URL is not recorded.
\<close>

theorem unrecorded_downloadUrl_counterexample:
  "sample_parse line_no_text_url =
     Some (JObj [(''message'', JObj [(''toString'', JNum ''1'')]), (''downloadUrl'', JStr ''/x'')]) \<and>
   truthy (JStr ''/x'') \<and>
   finalDownloadUrl (process_update sample_parse line_no_text_url sample_page) = None \<and>
   translationComplete (process_update sample_parse line_no_text_url sample_page) = False \<and>
   fst (update_try sample_parse line_no_text_url sample_page) = Some TypeError"
  by code_simp

section \<open>The fields of a record\<close>

lemma same_properties:
  assumes "map_of kvs' = map_of kvs"
  shows "handleProgressUpdate (JObj kvs') = handleProgressUpdate (JObj kvs)"
    and "downloadUrl_block (JObj kvs') = downloadUrl_block (JObj kvs)"
    and "summary_block (JObj kvs') = summary_block (JObj kvs)"
  using assms
  by (intro ext; simp add: handleProgressUpdate_def set_progress_def set_status_def
      set_apiCalls_def set_cached_def log_message_def print_downloadUrl_def
      downloadUrl_block_def summary_block_def)+

lemma update_try_parsed:
  "parse update = Some data \<Longrightarrow>
     update_try parse update s =
       (case handleProgressUpdate data s of
          (Some e, s1) \<Rightarrow> (Some e, s1)
        | (None, s1) \<Rightarrow>
            (case downloadUrl_block data s1 of
               (Some e, s2) \<Rightarrow> (Some e, s2)
             | (None, s2) \<Rightarrow> summary_block data s2))"
  by (simp add: update_try_def)

lemma process_update_same_properties:
  assumes "parse update = Some (JObj kvs)" and "parse' update = Some (JObj kvs')"
    and "map_of kvs' = map_of kvs"
  shows "process_update parse' update s = process_update parse update s"
proof -
  have "update_try parse' update s = update_try parse update s"
    unfolding update_try_parsed [where parse = parse and update = update, OF assms(1)]
      update_try_parsed [where parse = parse' and update = update, OF assms(2)]
      same_properties [OF assms(3)] ..
  then show ?thesis by (simp add: process_update_def)
qed

text \<open>
  Claim C3, as amended. For a line that parses to an object whose values have a text, each of
  \<open>progress\<close>, \<open>apiCalls\<close> and \<open>cached\<close> that is present, and each of \<open>status\<close>,
  \<open>message\<close> and \<open>downloadUrl\<close> whose value is truthy, is applied once, whatever else the
  record carries; a value that is present but falsy leaves its target as it was. A truthy
  \<open>summary\<close> is applied once when the record has no truthy \<open>downloadUrl\<close>. The log gets the
  message once, from \<open>handleProgressUpdate\<close>, and after it the one entry of lines 188 to 205.
  The result depends on the properties of the object only, not on their order.
\<close>

theorem record_fields_applied:
  assumes "parse update = Some (JObj kvs)"
    and "fields_have_text (JObj kvs)"
    and "summary_has_text (JObj kvs)"
  shows "progressBar_width (process_update parse update s) =
           when_defined (map_of kvs ''progress'') (\<lambda>v old. text_of v @ ''%'')
             (progressBar_width s) \<and>
         status_textContent (process_update parse update s) =
           when_truthy (map_of kvs ''status'') (\<lambda>v old. content_of v)
             (status_textContent s) \<and>
         apiCalls_textContent (process_update parse update s) =
           when_defined (map_of kvs ''apiCalls'') (\<lambda>v old. content_of v)
             (apiCalls_textContent s) \<and>
         cached_textContent (process_update parse update s) =
           when_defined (map_of kvs ''cached'') (\<lambda>v old. content_of v)
             (cached_textContent s) \<and>
         finalDownloadUrl (process_update parse update s) =
           when_truthy (map_of kvs ''downloadUrl'') (\<lambda>v old. Some v) (finalDownloadUrl s) \<and>
         translationComplete (process_update parse update s) =
           when_truthy (map_of kvs ''downloadUrl'') (\<lambda>v old. True) (translationComplete s) \<and>
         logContainer (snd (handleProgressUpdate (JObj kvs) s)) =
           when_truthy (map_of kvs ''message'') (\<lambda>v old. old @ [text_of v]) (logContainer s) \<and>
         logContainer (process_update parse update s) =
           (if truthy_opt (map_of kvs ''downloadUrl'')
            then when_truthy (map_of kvs ''message'') (\<lambda>v old. old @ [text_of v])
                   (logContainer s) @ [''Non-JSON update: '' @ update]
            else when_truthy (map_of kvs ''summary'')
                   (\<lambda>v old. old @ [''Document summary generated and displayed''])
                   (when_truthy (map_of kvs ''message'') (\<lambda>v old. old @ [text_of v])
                      (logContainer s))) \<and>
         (\<not> truthy_opt (map_of kvs ''downloadUrl'') \<longrightarrow>
            currentSummary (process_update parse update s) =
              when_truthy (map_of kvs ''summary'') (\<lambda>v old. v) (currentSummary s) \<and>
            summaryDisplay_textContent (process_update parse update s) =
              when_truthy (map_of kvs ''summary'') (\<lambda>v old. content_of v)
                (summaryDisplay_textContent s) \<and>
            summarySection_display (process_update parse update s) =
              when_truthy (map_of kvs ''summary'') (\<lambda>v old. ''block'')
                (summarySection_display s) \<and>
            editSummaryBtn_disabled (process_update parse update s) =
              when_truthy (map_of kvs ''summary'') (\<lambda>v old. False) (editSummaryBtn_disabled s) \<and>
            exportSummaryBtn_disabled (process_update parse update s) =
              when_truthy (map_of kvs ''summary'') (\<lambda>v old. False)
                (exportSummaryBtn_disabled s)) \<and>
         (\<forall>parse' kvs'. parse' update = Some (JObj kvs') \<and> map_of kvs' = map_of kvs \<longrightarrow>
            process_update parse' update s = process_update parse update s)"
    (is "?progress \<and> ?status \<and> ?apiCalls \<and> ?cached \<and> ?url \<and> ?complete \<and> ?message \<and> ?log \<and>
         ?summary \<and> ?order")
proof -
  have order: ?order
    using assms(1)
    by (auto intro: process_update_same_properties [where parse = parse and kvs = kvs])
  note h = handleProgressUpdate_texts [where data = "JObj kvs" and s = s, OF _ assms(2)]
  have ok: "fst (handleProgressUpdate (JObj kvs) s) = None"
    using assms(2) by (simp add: handleProgressUpdate_None_iff)
  have message: ?message
    by (simp add: h)
  have fields: "?progress \<and> ?status \<and> ?apiCalls \<and> ?cached \<and> ?url \<and> ?complete \<and> ?log \<and> ?summary"
  proof (cases "truthy_opt (map_of kvs ''downloadUrl'')")
    case True
    then have t: "truthy_opt (get_property (JObj kvs) ''downloadUrl'')" by simp
    have p: "process_update parse update s =
         addLog (''Non-JSON update: '' @ update)
           ((snd (handleProgressUpdate (JObj kvs) s))
              \<lparr>finalDownloadUrl := get_property (JObj kvs) ''downloadUrl'',
               translationComplete := True\<rparr>)"
      using assms(1) ok t by (rule process_update_url)
    have u: "when_truthy (map_of kvs ''downloadUrl'') (\<lambda>v old. Some v) (finalDownloadUrl s) =
          map_of kvs ''downloadUrl''"
      and c: "when_truthy (map_of kvs ''downloadUrl'') (\<lambda>v old. True) (translationComplete s)"
      using True by (auto simp: when_truthy_def truthy_opt_def split: option.splits)
    show ?thesis
      using True
      by (simp add: p u c h addLog_def)
  next
    case False
    then have t: "\<not> truthy_opt (get_property (JObj kvs) ''downloadUrl'')" by simp
    have p: "process_update parse update s =
        snd (summary_block (JObj kvs) (snd (handleProgressUpdate (JObj kvs) s)))"
      using assms(1) ok t
      by (simp add: process_update_plain summary_block_text [OF assms(3)])
    have u: "when_truthy (map_of kvs ''downloadUrl'') (\<lambda>v old. Some v) (finalDownloadUrl s) =
          finalDownloadUrl s"
      and c: "when_truthy (map_of kvs ''downloadUrl'') (\<lambda>v old. True) (translationComplete s) =
          translationComplete s"
      using False by (auto simp: when_truthy_def truthy_opt_def split: option.splits)
    show ?thesis
      using False
      by (simp add: p u c h summary_block_text [OF assms(3)])
  qed
  from fields message order show ?thesis by (intro conjI) (elim conjE, assumption)+
qed

text \<open>C3 as amended, at a record with a counter and a summary, in both orders.\<close>

theorem record_fields_applied_witness:
  "sample_parse line_summary = Some (JObj [(''cached'', JNum ''4''), (''summary'', JStr ''ok'')]) \<and>
   cached_textContent (process_update sample_parse line_summary sample_page) = ''4'' \<and>
   currentSummary (process_update sample_parse line_summary sample_page) = JStr ''ok'' \<and>
   logContainer (process_update sample_parse line_summary sample_page) =
     [''File selected: a.pdf'', ''Document summary generated and displayed''] \<and>
   process_update (\<lambda>l. Some (JObj [(''summary'', JStr ''ok''), (''cached'', JNum ''4'')]))
       line_summary sample_page =
     process_update sample_parse line_summary sample_page"
proof -
  let ?kvs = "[(''cached'', JNum ''4''), (''summary'', JStr ''ok'')]"
  let ?p = "process_update sample_parse line_summary sample_page"
  have h: "sample_parse line_summary = Some (JObj ?kvs)"
    by code_simp
  have f: "fields_have_text (JObj ?kvs)" by code_simp
  have g: "summary_has_text (JObj ?kvs)" by code_simp
  note w = record_fields_applied
      [where parse = sample_parse and update = line_summary and s = sample_page, OF h f g]
  have n: "\<not> truthy_opt (map_of ?kvs ''downloadUrl'')"
    by (simp add: truthy_opt_def)
  from w have "cached_textContent ?p =
      when_defined (map_of ?kvs ''cached'') (\<lambda>v old. content_of v)
        (cached_textContent sample_page)"
    by (elim conjE)
  then have cached: "cached_textContent ?p = ''4''"
    by (simp add: when_defined_def content_of_def textContent_of_def)
  from w n have "currentSummary ?p =
      when_truthy (map_of ?kvs ''summary'') (\<lambda>v old. v) (currentSummary sample_page)"
    by (elim conjE impE) assumption
  then have summary: "currentSummary ?p = JStr ''ok''"
    by (simp add: when_truthy_def)
  from w have "logContainer ?p =
      (if truthy_opt (map_of ?kvs ''downloadUrl'')
       then when_truthy (map_of ?kvs ''message'') (\<lambda>v old. old @ [text_of v])
              (logContainer sample_page) @ [''Non-JSON update: '' @ line_summary]
       else when_truthy (map_of ?kvs ''summary'')
              (\<lambda>v old. old @ [''Document summary generated and displayed''])
              (when_truthy (map_of ?kvs ''message'') (\<lambda>v old. old @ [text_of v])
                 (logContainer sample_page)))"
    by (elim conjE)
  then have log: "logContainer ?p =
      [''File selected: a.pdf'', ''Document summary generated and displayed'']"
    by (simp add: when_truthy_def truthy_opt_def sample_page_def)
  have m: "map_of [(''summary'', JStr ''ok''), (''cached'', JNum ''4'')] = map_of ?kvs"
    by (rule ext) simp
  from w have "\<forall>parse' kvs'. parse' line_summary = Some (JObj kvs') \<and> map_of kvs' = map_of ?kvs \<longrightarrow>
      process_update parse' line_summary sample_page = ?p"
    by (elim conjE)
  then have "(\<lambda>l. Some (JObj [(''summary'', JStr ''ok''), (''cached'', JNum ''4'')])) line_summary =
        Some (JObj [(''summary'', JStr ''ok''), (''cached'', JNum ''4'')]) \<and>
      map_of [(''summary'', JStr ''ok''), (''cached'', JNum ''4'')] = map_of ?kvs \<longrightarrow>
      process_update (\<lambda>l. Some (JObj [(''summary'', JStr ''ok''), (''cached'', JNum ''4'')]))
        line_summary sample_page = ?p"
    by (elim allE)
  with m have order: "process_update
        (\<lambda>l. Some (JObj [(''summary'', JStr ''ok''), (''cached'', JNum ''4'')]))
        line_summary sample_page = ?p"
    by blast
  from h cached summary log order show ?thesis by (intro conjI)
qed

text \<open>
  C3 as stated fails: a record with \<open>summary\<close> and \<open>downloadUrl\<close> leaves the summary
  unapplied, a record whose \<open>status\<close> is the empty string leaves the status text, and a
  record whose \<open>status\<close> has no text leaves the status text and the \<open>apiCalls\<close> after it.
\<close>

theorem fields_not_applied_counterexample:
  "sample_parse line_summary_url =
     Some (JObj [(''summary'', JStr ''ok''), (''downloadUrl'', JStr ''/x'')]) \<and>
   currentSummary (process_update sample_parse line_summary_url sample_page) = JStr [] \<and>
   summaryDisplay_textContent (process_update sample_parse line_summary_url sample_page) = [] \<and>
   summaryGenerated (process_update sample_parse line_summary_url sample_page) = False \<and>
   sample_parse line_empty_status = Some (JObj [(''status'', JStr []), (''cached'', JNum ''4'')]) \<and>
   status_textContent (process_update sample_parse line_empty_status sample_page) = ''Ready'' \<and>
   sample_parse line_no_text_status =
     Some (JObj [(''status'', JObj [(''toString'', JNum ''1'')]), (''apiCalls'', JNum ''5'')]) \<and>
   status_textContent (process_update sample_parse line_no_text_status sample_page) = ''Ready'' \<and>
   apiCalls_textContent (process_update sample_parse line_no_text_status sample_page) = ''3''"
  by code_simp

section \<open>The exit paths of a run\<close>

lemma finish_without_url:
  "finalDownloadUrl t = None \<Longrightarrow> fst (finish t) = Incomplete"
  by (simp add: finish_def finish_incomplete_def)

lemma finish_with_url:
  assumes "finalDownloadUrl t = Some url" and "translationComplete t" and "truthy url"
  shows "finish t =
           (Completed,
            t\<lparr>status_textContent := ''Translation completed'',
              progressBar_width := ''100%'',
              downloadBtn_exists := True,
              downloadBtn_onclick := Some url,
              logContainer := logContainer t @
                [''Download ready! Click the download button to save the translated document.'',
                 ''Translation process finished successfully. Download ready.'']\<rparr>)"
  using assms by (simp add: finish_def addDownloadButton_def addLog_def)

lemma finish_finalDownloadUrl: "finalDownloadUrl (snd (finish t)) = finalDownloadUrl t"
  by (simp add: finish_def finish_incomplete_def addDownloadButton_def addLog_def
      split: option.splits)

lemma translate_run_rejects: "fst (translate_run parse (Fetch_rejects m) s) = Failed"
  by (simp add: translate_run_def try_block_def Let_def)

lemma translate_run_not_ok:
  "fst (translate_run parse (Fetch_response False status chunks ending) s) = Failed"
  by (simp add: translate_run_def try_block_def Let_def)

lemma translate_run_read_rejects:
  "fst (translate_run parse (Fetch_response True status chunks (Read_rejects m)) s) = Failed"
  by (simp add: translate_run_def try_block_def read_response_def Let_def
      read_loop_fold [of parse chunks])

lemma translate_run_Done:
  "\<exists>t. translate_run parse (Fetch_response True status chunks Done) s =
         (fst (finish t), (snd (finish t))\<lparr>translateBtn_disabled := False\<rparr>) \<and>
       finalDownloadUrl t =
         (if recorded_urls parse (stream_updates chunks) = [] then None
          else Some (last (recorded_urls parse (stream_updates chunks)))) \<and>
       translationComplete t = (recorded_urls parse (stream_updates chunks) \<noteq> [])"
proof -
  define s0 where "s0 =
    (addLog ''Connected to server stream. Waiting for updates...''
       ((addLog ''Sending file to server...''
          (addLog ''Starting translation process...''
             (s\<lparr>progressSection_display := ''block'', translateBtn_disabled := True,
                status_textContent := ''Translating...'', progressBar_width := ''0%'',
                logContainer := []\<rparr>)))
          \<lparr>fetched := fetched s @ [''/translate'']\<rparr>))
      \<lparr>translationComplete := False, summaryGenerated := False, finalDownloadUrl := None\<rparr>"
  define t where "t = addLog ''Stream complete'' (fold (process_update parse) (stream_updates chunks) s0)"
  have run: "translate_run parse (Fetch_response True status chunks Done) s =
         (fst (finish t), (snd (finish t))\<lparr>translateBtn_disabled := False\<rparr>)"
    by (simp add: translate_run_def try_block_def read_response_def Let_def
        read_loop_fold [of parse chunks] t_def s0_def addLog_def)
  have "finalDownloadUrl t =
         (if recorded_urls parse (stream_updates chunks) = [] then None
          else Some (last (recorded_urls parse (stream_updates chunks))))"
    by (simp add: t_def addLog_def fold_finalDownloadUrl s0_def)
  moreover have "translationComplete t = (recorded_urls parse (stream_updates chunks) \<noteq> [])"
    by (simp add: t_def addLog_def fold_translationComplete s0_def)
  ultimately show ?thesis using run by blast
qed

lemma translate_run_Done_completed:
  assumes "recorded_urls parse (stream_updates chunks) \<noteq> []"
  shows "fst (translate_run parse (Fetch_response True status chunks Done) s) = Completed \<and>
     status_textContent (snd (translate_run parse (Fetch_response True status chunks Done) s)) =
       ''Translation completed'' \<and>
     progressBar_width (snd (translate_run parse (Fetch_response True status chunks Done) s)) =
       ''100%'' \<and>
     downloadBtn_exists (snd (translate_run parse (Fetch_response True status chunks Done) s)) \<and>
     downloadBtn_onclick (snd (translate_run parse (Fetch_response True status chunks Done) s)) =
       Some (last (recorded_urls parse (stream_updates chunks))) \<and>
     finalDownloadUrl (snd (translate_run parse (Fetch_response True status chunks Done) s)) =
       Some (last (recorded_urls parse (stream_updates chunks)))"
proof -
  let ?urls = "recorded_urls parse (stream_updates chunks)"
  obtain t where run: "translate_run parse (Fetch_response True status chunks Done) s =
         (fst (finish t), (snd (finish t))\<lparr>translateBtn_disabled := False\<rparr>)"
    and url: "finalDownloadUrl t = (if ?urls = [] then None else Some (last ?urls))"
    and tc: "translationComplete t = (?urls \<noteq> [])"
    using translate_run_Done [of parse status chunks s] by blast
  from assms have "last ?urls \<in> set ?urls" by simp
  then have "truthy (last ?urls)" by (rule recorded_urls_truthy)
  with assms url tc show ?thesis
    by (simp add: run finish_with_url [of t "last ?urls"])
qed

lemma translate_run_Done_incomplete:
  assumes "recorded_urls parse (stream_updates chunks) = []"
  shows "fst (translate_run parse (Fetch_response True status chunks Done) s) = Incomplete \<and>
     finalDownloadUrl (snd (translate_run parse (Fetch_response True status chunks Done) s)) = None"
proof -
  obtain t where run: "translate_run parse (Fetch_response True status chunks Done) s =
         (fst (finish t), (snd (finish t))\<lparr>translateBtn_disabled := False\<rparr>)"
    and url: "finalDownloadUrl t = (if recorded_urls parse (stream_updates chunks) = [] then None
          else Some (last (recorded_urls parse (stream_updates chunks))))"
    using translate_run_Done [of parse status chunks s] by blast
  with assms show ?thesis
    using finish_finalDownloadUrl [of t] by (simp add: finish_without_url)
qed

text \<open>
  Claim C7. A run takes the completed branch exactly when the response is \<open>ok\<close>, its reads
  reach the end of the stream and a download URL is recorded at that point; the URL recorded is
  that of the last line that got one recorded. The status text is then
  \<open>Translation completed\<close>, the width of the progress bar is \<open>100%\<close>, and the download
  button exists and is bound to the URL recorded.
\<close>

theorem completed_iff_url_recorded:
  "(fst (translate_run parse net s) = Completed \<longleftrightarrow>
      (\<exists>status chunks. net = Fetch_response True status chunks Done \<and>
         finalDownloadUrl (snd (translate_run parse net s)) \<noteq> None)) \<and>
   (\<forall>status chunks.
      net = Fetch_response True status chunks Done \<longrightarrow>
        finalDownloadUrl (snd (translate_run parse net s)) =
          (if recorded_urls parse (stream_updates chunks) = [] then None
           else Some (last (recorded_urls parse (stream_updates chunks))))) \<and>
   (fst (translate_run parse net s) = Completed \<longrightarrow>
      status_textContent (snd (translate_run parse net s)) = ''Translation completed'' \<and>
      progressBar_width (snd (translate_run parse net s)) = ''100%'' \<and>
      downloadBtn_exists (snd (translate_run parse net s)) \<and>
      downloadBtn_onclick (snd (translate_run parse net s)) =
        finalDownloadUrl (snd (translate_run parse net s)))"
proof (cases net)
  case (Fetch_rejects m)
  then show ?thesis by (simp add: translate_run_rejects)
next
  case (Fetch_response ok status chunks ending)
  show ?thesis
  proof (cases ok)
    case False
    with Fetch_response show ?thesis by (simp add: translate_run_not_ok)
  next
    case True
    show ?thesis
    proof (cases ending)
      case (Read_rejects m)
      with Fetch_response True show ?thesis by (simp add: translate_run_read_rejects)
    next
      case Done
      show ?thesis
      proof (cases "recorded_urls parse (stream_updates chunks) = []")
        case True
        with Fetch_response \<open>ok\<close> Done show ?thesis
          using translate_run_Done_incomplete [OF True, of status s] by simp
      next
        case False
        with Fetch_response \<open>ok\<close> Done show ?thesis
          using translate_run_Done_completed [OF False, of status s] by simp
      qed
    qed
  qed
qed

text \<open>
  C7 at the three lines of the example of the specification, and at a stream whose only
  download URL comes with a message that has no text.
\<close>

theorem completed_iff_url_recorded_witness:
  "recorded_urls sample_parse
     (stream_updates [line_start @ [nl] @ line_malformed @ [nl], line_summary_url @ [nl]]) =
     [JStr ''/x''] \<and>
   fst (translate_run sample_parse
     (Fetch_response True 200 [line_start @ [nl] @ line_malformed @ [nl], line_summary_url @ [nl]]
        Done) sample_page) = Completed \<and>
   status_textContent (snd (translate_run sample_parse
     (Fetch_response True 200 [line_start @ [nl] @ line_malformed @ [nl], line_summary_url @ [nl]]
        Done) sample_page)) = ''Translation completed'' \<and>
   progressBar_width (snd (translate_run sample_parse
     (Fetch_response True 200 [line_start @ [nl] @ line_malformed @ [nl], line_summary_url @ [nl]]
        Done) sample_page)) = ''100%'' \<and>
   downloadBtn_onclick (snd (translate_run sample_parse
     (Fetch_response True 200 [line_start @ [nl] @ line_malformed @ [nl], line_summary_url @ [nl]]
        Done) sample_page)) = Some (JStr ''/x'') \<and>
   recorded_urls sample_parse (stream_updates [line_no_text_url @ [nl]]) = [] \<and>
   fst (translate_run sample_parse
     (Fetch_response True 200 [line_no_text_url @ [nl]] Done) sample_page) = Incomplete"
proof -
  have c: "recorded_urls sample_parse
     (stream_updates [line_start @ [nl] @ line_malformed @ [nl], line_summary_url @ [nl]]) =
     [JStr ''/x'']"
    by code_simp
  have d: "recorded_urls sample_parse (stream_updates [line_no_text_url @ [nl]]) = []"
    by code_simp
  have e: "fst (translate_run sample_parse
     (Fetch_response True 200 [line_no_text_url @ [nl]] Done) sample_page) = Incomplete"
    by code_simp
  show ?thesis
    using c d e completed_iff_url_recorded
      [where parse = sample_parse and s = sample_page and net = "Fetch_response True 200
         [line_start @ [nl] @ line_malformed @ [nl], line_summary_url @ [nl]] Done"]
    by simp
qed

text \<open>
  Claim C4. However a run ends, its last act is to enable the translate button: after the
  handler, started with a file, the button is not disabled.
\<close>

theorem translate_button_reenabled:
  "translateBtn_disabled (snd (translate_run parse net s)) = False \<and>
   (fileInput_files s \<noteq> [] \<longrightarrow> translateBtn_disabled (translate_click parse net s) = False)"
proof -
  have "translateBtn_disabled (snd (translate_run parse net s)) = False"
    by (simp add: translate_run_def Let_def split: prod.splits option.splits)
  then show ?thesis
    by (simp add: translate_click_def split: list.splits)
qed

text \<open>
  C4 at a run that completes, a run whose stream ends without a download URL, a submission
  answered with status 500 and a read that rejects.
\<close>

theorem translate_button_reenabled_witness:
  "fst (translate_run sample_parse
     (Fetch_response True 200 [line_start @ [nl], line_url_a @ [nl]] Done) sample_page) = Completed \<and>
   translateBtn_disabled (translate_click sample_parse
     (Fetch_response True 200 [line_start @ [nl], line_url_a @ [nl]] Done) sample_page) = False \<and>
   fst (translate_run sample_parse
     (Fetch_response True 200 [line_start @ [nl]] Done) sample_page) = Incomplete \<and>
   translateBtn_disabled (translate_click sample_parse
     (Fetch_response True 200 [line_start @ [nl]] Done) sample_page) = False \<and>
   fst (translate_run sample_parse (Fetch_response False 500 [] Done) sample_page) = Failed \<and>
   translateBtn_disabled (translate_click sample_parse
     (Fetch_response False 500 [] Done) sample_page) = False \<and>
   fst (translate_run sample_parse
     (Fetch_response True 200 [line_start @ [nl]] (Read_rejects ''network error'')) sample_page) =
     Failed \<and>
   translateBtn_disabled (translate_click sample_parse
     (Fetch_response True 200 [line_start @ [nl]] (Read_rejects ''network error'')) sample_page) =
     False"
proof -
  have f: "fileInput_files sample_page \<noteq> []" by (simp add: sample_page_def)
  have "fst (translate_run sample_parse
     (Fetch_response True 200 [line_start @ [nl], line_url_a @ [nl]] Done) sample_page) = Completed"
    by code_simp
  moreover have "fst (translate_run sample_parse
     (Fetch_response True 200 [line_start @ [nl]] Done) sample_page) = Incomplete"
    by code_simp
  moreover have "fst (translate_run sample_parse (Fetch_response False 500 [] Done) sample_page) =
     Failed"
    by code_simp
  moreover have "fst (translate_run sample_parse
     (Fetch_response True 200 [line_start @ [nl]] (Read_rejects ''network error'')) sample_page) =
     Failed"
    by code_simp
  ultimately show ?thesis
    using f translate_button_reenabled [where parse = sample_parse and s = sample_page]
    by simp
qed

text \<open>
  Claim C10. Without a file in the file input the translate handler leaves the page as it is:
  nothing is fetched, nothing is logged, and no property of the page changes.
\<close>

theorem translate_click_without_file:
  assumes "fileInput_files s = []"
  shows "translate_click parse net s = s"
  using assms by (simp add: translate_click_def)

text \<open>C10 at the sample page without its file.\<close>

theorem translate_click_without_file_witness:
  "translate_click sample_parse (Fetch_response True 200 [line_start @ [nl]] Done)
     (sample_page\<lparr>fileInput_files := []\<rparr>) = sample_page\<lparr>fileInput_files := []\<rparr>"
  using translate_click_without_file [of "sample_page\<lparr>fileInput_files := []\<rparr>" sample_parse
      "Fetch_response True 200 [line_start @ [nl]] Done"]
  by simp

section \<open>Clearing the cache\<close>

text \<open>
  Claim C9. When the cache-clear request fails, the handler appends one entry
  \<open>Error clearing cache\<close> to the log and changes nothing else of the page but the list of
  requests sent: the two counters stay as they were. When it does not fail, both counters are
  set to \<open>0\<close>.
\<close>

theorem clearCache_failure_keeps_counters:
  "(request_failed net \<longrightarrow>
      (\<exists>m. clearCache_click net s =
         s\<lparr>fetched := fetched s @ [''/clear-cache''],
           logContainer := logContainer s @ [''Error clearing cache: '' @ m]\<rparr>) \<and>
      apiCalls_textContent (clearCache_click net s) = apiCalls_textContent s \<and>
      cached_textContent (clearCache_click net s) = cached_textContent s) \<and>
   (\<not> request_failed net \<longrightarrow>
      apiCalls_textContent (clearCache_click net s) = ''0'' \<and>
      cached_textContent (clearCache_click net s) = ''0'')"
  by (cases net)
    (auto simp: request_failed_def clearCache_click_def addLog_def Let_def
      split: sum.splits option.splits)

text \<open>C9 at a response that is not \<open>ok\<close>, and at one that is.\<close>

theorem clearCache_failure_keeps_counters_witness:
  "apiCalls_textContent (clearCache_click (Cache_response False (Inl [])) sample_page) = ''3'' \<and>
   cached_textContent (clearCache_click (Cache_response False (Inl [])) sample_page) = ''7'' \<and>
   logContainer (clearCache_click (Cache_response False (Inl [])) sample_page) =
     [''File selected: a.pdf'', ''Error clearing cache: Failed to clear cache''] \<and>
   apiCalls_textContent
     (clearCache_click (Cache_response True (Inr (JObj [(''message'', JStr ''done'')]))) sample_page) = ''0''"
proof -
  have "logContainer (clearCache_click (Cache_response False (Inl [])) sample_page) =
     [''File selected: a.pdf'', ''Error clearing cache: Failed to clear cache'']"
    by code_simp
  then show ?thesis
    using clearCache_failure_keeps_counters [of "Cache_response False (Inl [])" sample_page]
      clearCache_failure_keeps_counters
        [of "Cache_response True (Inr (JObj [(''message'', JStr ''done'')]))" sample_page]
    by (simp add: request_failed_def sample_page_def)
qed

end
